theory Spec2Isabelle
  imports Complex_Main "HOL-Library.AList"
begin

section \<open>Fleet-utilisation statistics: the data model\<close>

text \<open>
  The program reads rows of a CSV table into dictionaries and hands every timestamp
  field to \<^verbatim>\<open>parse_datestamp\<close>, which is \<^verbatim>\<open>datetime.strptime\<close> with the format
  \<^verbatim>\<open>%Y-%m-%d %H:%M:%S\<close>. The model starts from the value that call returns: a naive
  \<^verbatim>\<open>datetime\<close> of second precision, written as the number of seconds since
  1970-01-01 00:00:00. A \<^verbatim>\<open>date\<close> is the number of days since 1970-01-01, and a
  \<^verbatim>\<open>timedelta\<close> is a number of seconds (of days, between dates). Text that
  \<^verbatim>\<open>strptime\<close> rejects is outside the model.
\<close>

type_synonym datetime = int
type_synonym date = int

datatype error =
    TypeError
  | ZeroDivisionError
  | OverflowError
  | KeyError
  | StatisticsError
  | Exception string

record event =
  Aircraft :: string
  Location :: string
  Start :: datetime
  End :: datetime
  Type :: string
  Tach_Total :: string

definition SECONDS_PER_DAY :: int where
  "SECONDS_PER_DAY = 86400"

text \<open>\<^verbatim>\<open>datetime.min\<close> is 0001-01-01 00:00:00 and \<^verbatim>\<open>datetime.max\<close>, at second
  precision, 9999-12-31 23:59:59.\<close>

definition DATETIME_MIN :: datetime where
  "DATETIME_MIN = - 62135596800"

definition DATETIME_MAX :: datetime where
  "DATETIME_MAX = 253402300799"

definition valid_datetime :: "datetime \<Rightarrow> bool" where
  "valid_datetime t \<longleftrightarrow> DATETIME_MIN \<le> t \<and> t \<le> DATETIME_MAX"

text \<open>\<^verbatim>\<open>datetime.date()\<close>: the calendar day of a timestamp.\<close>

definition date_of :: "datetime \<Rightarrow> date" where
  "date_of t = t div SECONDS_PER_DAY"

text \<open>\<^verbatim>\<open>weekday()\<close>: Monday is 0 and Sunday is 6; 1970-01-01 was a Thursday.\<close>

definition date_weekday :: "date \<Rightarrow> int" where
  "date_weekday d = (d + 3) mod 7"

definition weekday :: "datetime \<Rightarrow> int" where
  "weekday t = date_weekday (date_of t)"

text \<open>\<^verbatim>\<open>strftime("%A")\<close> in the default locale.\<close>

definition day_names :: "string list" where
  "day_names = [''Monday'', ''Tuesday'', ''Wednesday'', ''Thursday'', ''Friday'',
     ''Saturday'', ''Sunday'']"

definition date_day_name :: "date \<Rightarrow> string" where
  "date_day_name d = day_names ! nat (date_weekday d)"

definition day_name :: "datetime \<Rightarrow> string" where
  "day_name t = date_day_name (date_of t)"

text \<open>
  Python dictionaries keep their keys in insertion order, and the program's results are
  dictionaries, so every dictionary is an association list: \<open>AList.update\<close> replaces
  the value of a key that is present in place and appends a new key at the end, as
  \<^verbatim>\<open>d[k] = v\<close> does. Reading a \<^verbatim>\<open>defaultdict\<close> or a \<^verbatim>\<open>Counter\<close> at a
  missing key gives the default.
\<close>

definition dd_get :: "'v \<Rightarrow> ('k \<times> 'v) list \<Rightarrow> 'k \<Rightarrow> 'v" where
  "dd_get dflt d k = (case map_of d k of None \<Rightarrow> dflt | Some v \<Rightarrow> v)"

text \<open>\<^verbatim>\<open>c[k] += 1\<close> on a \<^verbatim>\<open>Counter\<close>.\<close>

definition counter_incr :: "'k \<Rightarrow> ('k \<times> int) list \<Rightarrow> ('k \<times> int) list" where
  "counter_incr k c = AList.update k (dd_get 0 c k + 1) c"

definition is_event_maintenance :: "event \<Rightarrow> bool" where
  "is_event_maintenance event \<longleftrightarrow> Type event = ''Maintenance''"

section \<open>is_weekend\<close>

text \<open>The loop \<^verbatim>\<open>while x < end\<close> of \<^verbatim>\<open>is_weekend\<close>, from the current \<open>x\<close>.\<close>

function is_weekend_scan :: "datetime \<Rightarrow> datetime \<Rightarrow> error + bool" where
  "is_weekend_scan x end' =
     (if x < end' then
        (if weekday x \<in> set [5, 6] then Inr True
         else if x + SECONDS_PER_DAY > DATETIME_MAX then Inl OverflowError
         else is_weekend_scan (x + SECONDS_PER_DAY) end')
      else Inr False)"
  by pat_completeness auto
termination
  by (relation "measure (\<lambda>(x, e). nat (e - x))") (auto simp: SECONDS_PER_DAY_def)

declare is_weekend_scan.simps [simp del]

definition is_weekend :: "datetime \<Rightarrow> datetime \<Rightarrow> error + bool" where
  "is_weekend start end' =
     (if weekday start \<in> set [5, 6] \<or> weekday end' \<in> set [5, 6] then Inr True
      else if end' - start < 1 * SECONDS_PER_DAY then Inr False
      else if end' - start > 6 * SECONDS_PER_DAY then Inr True
      else is_weekend_scan start end')"

section \<open>gather_metadata\<close>

text \<open>The fields \<open>start_date\<close> and \<open>end_date\<close> hold the timestamps of the
  \<^verbatim>\<open>Start\<close> and \<^verbatim>\<open>End\<close> fields the source copies into its result.\<close>

record metadata =
  start_date :: datetime
  end_date :: datetime
  length_days :: int
  num_events :: int

text \<open>The \<^verbatim>\<open>for\<close> loop: \<open>first_event\<close> and \<open>last_event\<close> start as \<^verbatim>\<open>None\<close>.
  An empty \<^verbatim>\<open>Tach Total\<close> is falsy; a row has its columns as keys, so it is truthy
  and \<^verbatim>\<open>not first_event\<close> asks whether the variable is still \<^verbatim>\<open>None\<close>.\<close>

fun gather_metadata_loop ::
  "event option \<Rightarrow> event option \<Rightarrow> event list \<Rightarrow> event option \<times> event option" where
  "gather_metadata_loop first_event last_event [] = (first_event, last_event)"
| "gather_metadata_loop first_event last_event (event # rest) =
     (if is_event_maintenance event \<or> Tach_Total event = [] then
        gather_metadata_loop first_event last_event rest
      else
        gather_metadata_loop
          (case first_event of
             None \<Rightarrow> Some event
           | Some f \<Rightarrow> if Start event < Start f then Some event else Some f)
          (case last_event of
             None \<Rightarrow> Some event
           | Some l \<Rightarrow> if End event > End l then Some event else Some l)
          rest)"

text \<open>Subscripting \<^verbatim>\<open>None\<close> raises \<^verbatim>\<open>TypeError\<close>.\<close>

definition gather_metadata :: "event list \<Rightarrow> error + metadata" where
  "gather_metadata event_list =
     (case gather_metadata_loop None None event_list of
        (None, _) \<Rightarrow> Inl TypeError
      | (Some first_event, None) \<Rightarrow> Inl TypeError
      | (Some first_event, Some last_event) \<Rightarrow>
          Inr \<lparr> start_date = Start first_event,
                end_date = End last_event,
                length_days = (End last_event - Start first_event) div SECONDS_PER_DAY,
                num_events = int (length event_list) \<rparr>)"

section \<open>length_histogram\<close>

text \<open>
  \<^verbatim>\<open>int(math.ceil((t_in - t_out).total_seconds() / (60 * 60)))\<close>. The difference is a
  whole number of seconds below \<open>2 ^ 53\<close>, so the float that Python divides is exact,
  and a quotient that is not a whole number lies at least \<open>1 / 3600\<close> from the next
  one, far more than the rounding of the division: the ceiling Python takes is the
  ceiling of the exact quotient.
\<close>

definition length_hours :: "event \<Rightarrow> int" where
  "length_hours event = \<lceil>(of_int (End event - Start event) :: rat) / (60 * 60)\<rceil>"

fun length_histogram_loop :: "(int \<times> int) list \<Rightarrow> event list \<Rightarrow> (int \<times> int) list" where
  "length_histogram_loop results [] = results"
| "length_histogram_loop results (event # rest) =
     (if is_event_maintenance event then length_histogram_loop results rest
      else length_histogram_loop (counter_incr (length_hours event) results) rest)"

definition length_histogram :: "event list \<Rightarrow> (int \<times> int) list" where
  "length_histogram event_list = sort_key fst (length_histogram_loop [] event_list)"

section \<open>days_between_usage\<close>

text \<open>A gap is \<^verbatim>\<open>abs(delta_between).total_seconds() / (60 * 60 * 24)\<close>, a float in
  Python; the model keeps the exact quotient.\<close>

record usage_gaps =
  deltas_by_name :: "(string \<times> rat list) list"
  last_event_by_name :: "(string \<times> event) list"

definition days_between_usage_step :: "usage_gaps \<Rightarrow> event \<Rightarrow> usage_gaps" where
  "days_between_usage_step s event =
     (let aircraft_name = Aircraft event in
      case map_of (last_event_by_name s) aircraft_name of
        None \<Rightarrow>
          s\<lparr> last_event_by_name := AList.update aircraft_name event (last_event_by_name s) \<rparr>
      | Some last_event \<Rightarrow>
          if date_of (Start event) = date_of (End last_event) then s
          else
            (let s' =
               (if \<not> is_event_maintenance event \<and> \<not> is_event_maintenance last_event then
                  s\<lparr> deltas_by_name :=
                       AList.update aircraft_name
                         (dd_get [] (deltas_by_name s) aircraft_name
                            @ [of_int \<bar>Start event - End last_event\<bar> / (60 * 60 * 24)])
                         (deltas_by_name s) \<rparr>
                else s)
             in s'\<lparr> last_event_by_name :=
                      AList.update aircraft_name event (last_event_by_name s') \<rparr>))"

fun days_between_usage_loop :: "usage_gaps \<Rightarrow> event list \<Rightarrow> usage_gaps" where
  "days_between_usage_loop s [] = s"
| "days_between_usage_loop s (event # rest) =
     days_between_usage_loop (days_between_usage_step s event) rest"

definition days_between_usage :: "event list \<Rightarrow> (string \<times> rat list) list" where
  "days_between_usage event_list =
     deltas_by_name
       (days_between_usage_loop \<lparr> deltas_by_name = [], last_event_by_name = [] \<rparr> event_list)"

section \<open>usage_by_weekday\<close>

text \<open>
  The walk \<^verbatim>\<open>while x < parse_datestamp(event["End"])\<close>. Python raises
  \<^verbatim>\<open>OverflowError\<close> at \<^verbatim>\<open>x += timedelta(days=1)\<close> when the sum lies after
  \<^verbatim>\<open>datetime.max\<close>.
\<close>

function usage_walk ::
  "(string \<times> (string \<times> int) list) list \<Rightarrow> event \<Rightarrow> datetime \<Rightarrow>
   error + (string \<times> (string \<times> int) list) list" where
  "usage_walk day_of_week_by_name event x =
     (if x < End event then
        (if x + SECONDS_PER_DAY > DATETIME_MAX then Inl OverflowError
         else
           usage_walk
             (AList.update (Aircraft event)
                (counter_incr (day_name x) (dd_get [] day_of_week_by_name (Aircraft event)))
                day_of_week_by_name)
             event (x + SECONDS_PER_DAY))
      else Inr day_of_week_by_name)"
  by pat_completeness auto
termination
  by (relation "measure (\<lambda>(d, e, x). nat (End e - x))") (auto simp: SECONDS_PER_DAY_def)

declare usage_walk.simps [simp del]

fun usage_by_weekday_loop ::
  "(string \<times> (string \<times> int) list) list \<Rightarrow> event list \<Rightarrow>
   error + (string \<times> (string \<times> int) list) list" where
  "usage_by_weekday_loop day_of_week_by_name [] = Inr day_of_week_by_name"
| "usage_by_weekday_loop day_of_week_by_name (event # rest) =
     (if is_event_maintenance event then usage_by_weekday_loop day_of_week_by_name rest
      else
        (case usage_walk day_of_week_by_name event (Start event) of
           Inl e \<Rightarrow> Inl e
         | Inr d \<Rightarrow> usage_by_weekday_loop d rest))"

definition usage_by_weekday ::
  "event list \<Rightarrow> error + (string \<times> (string \<times> int) list) list" where
  "usage_by_weekday event_list = usage_by_weekday_loop [] event_list"

section \<open>gather_aircraft and gather_locations\<close>

fun gather_aircraft_loop :: "string list \<Rightarrow> event list \<Rightarrow> string list" where
  "gather_aircraft_loop aircraft [] = aircraft"
| "gather_aircraft_loop aircraft (evt # rest) =
     (if Aircraft evt \<notin> set aircraft then gather_aircraft_loop (aircraft @ [Aircraft evt]) rest
      else gather_aircraft_loop aircraft rest)"

definition gather_aircraft :: "event list \<Rightarrow> string list" where
  "gather_aircraft events = gather_aircraft_loop [] events"

fun gather_locations_loop :: "string list \<Rightarrow> event list \<Rightarrow> string list" where
  "gather_locations_loop locations [] = locations"
| "gather_locations_loop locations (evt # rest) =
     (if Location evt \<notin> set locations then
        gather_locations_loop (locations @ [Location evt]) rest
      else gather_locations_loop locations rest)"

definition gather_locations :: "event list \<Rightarrow> string list" where
  "gather_locations events = gather_locations_loop [] events"

section \<open>aircraft_available_by_airport_and_weekday\<close>

type_synonym availability = "(string \<times> (date \<times> int) list) list"

record sweep_state =
  available_aircraft_by_airport_and_date :: availability
  current_date :: "date option"
  aircraft_seen :: "string list"
  airport_usage :: "(string \<times> int) list"

text \<open>\<^verbatim>\<open>for airport in airports: available...[airport][x] = value(airport)\<close>.\<close>

fun record_day :: "string list \<Rightarrow> date \<Rightarrow> (string \<Rightarrow> int) \<Rightarrow> availability \<Rightarrow> availability" where
  "record_day [] x val avail = avail"
| "record_day (airport # rest) x val avail =
     record_day rest x val
       (AList.update airport (AList.update x (val airport) (dd_get [] avail airport)) avail)"

text \<open>
  The loop under \<^verbatim>\<open># Initialize any gaps\<close>, from the current \<open>x\<close>. Here \<open>x\<close> is a
  date before the date of an event, so \<^verbatim>\<open>x += timedelta(days=1)\<close> stays within the
  calendar.
\<close>

function fill_gaps ::
  "int \<Rightarrow> string list \<Rightarrow> date \<Rightarrow> date \<Rightarrow> availability \<Rightarrow> availability" where
  "fill_gaps aircraft_per_airport airports x start avail =
     (if x < start then
        fill_gaps aircraft_per_airport airports (x + 1) start
          (record_day airports x (\<lambda>airport. aircraft_per_airport) avail)
      else avail)"
  by pat_completeness auto
termination
  by (relation "measure (\<lambda>(a, ps, x, s, av). nat (s - x))") auto

declare fill_gaps.simps [simp del]

text \<open>The body of \<^verbatim>\<open>if parse_datestamp(event["Start"]).date() != current_date\<close>.\<close>

definition change_day :: "int \<Rightarrow> string list \<Rightarrow> sweep_state \<Rightarrow> date \<Rightarrow> sweep_state" where
  "change_day aircraft_per_airport airports s start =
     \<lparr> available_aircraft_by_airport_and_date =
         (case current_date s of
            None \<Rightarrow> available_aircraft_by_airport_and_date s
          | Some cur \<Rightarrow>
              (let recorded =
                 record_day airports cur
                   (\<lambda>airport. aircraft_per_airport - dd_get 0 (airport_usage s) airport)
                   (available_aircraft_by_airport_and_date s)
               in if start - cur > 1 then
                    fill_gaps aircraft_per_airport airports cur start recorded
                  else recorded)),
       current_date = Some start,
       aircraft_seen = [],
       airport_usage = [] \<rparr>"

definition sweep_step :: "int \<Rightarrow> string list \<Rightarrow> sweep_state \<Rightarrow> event \<Rightarrow> sweep_state" where
  "sweep_step aircraft_per_airport airports s event =
     (let s1 =
        (if Some (date_of (Start event)) \<noteq> current_date s then
           change_day aircraft_per_airport airports s (date_of (Start event))
         else s)
      in if Aircraft event \<notin> set (aircraft_seen s1) then
           s1\<lparr> aircraft_seen := aircraft_seen s1 @ [Aircraft event],
               airport_usage := counter_incr (Location event) (airport_usage s1) \<rparr>
         else s1)"

fun sweep :: "int \<Rightarrow> string list \<Rightarrow> sweep_state \<Rightarrow> event list \<Rightarrow> sweep_state" where
  "sweep aircraft_per_airport airports s [] = s"
| "sweep aircraft_per_airport airports s (event # rest) =
     sweep aircraft_per_airport airports
       (sweep_step aircraft_per_airport airports s event) rest"

definition sweep_init :: sweep_state where
  "sweep_init =
     \<lparr> available_aircraft_by_airport_and_date = [], current_date = None,
       aircraft_seen = [], airport_usage = [] \<rparr>"

text \<open>\<^verbatim>\<open>for airport in airports: ...[airport] = defaultdict(list)\<close>.\<close>

fun init_availability_lists ::
  "(string \<times> (string \<times> int list) list) list \<Rightarrow> string list \<Rightarrow>
   (string \<times> (string \<times> int list) list) list" where
  "init_availability_lists m [] = m"
| "init_availability_lists m (airport # rest) =
     init_availability_lists (AList.update airport [] m) rest"

text \<open>
  The grouping by weekday name. \<^verbatim>\<open>airport_and_weekday_to_availability_list[airport]\<close>
  is read once for every date of the airport and raises \<^verbatim>\<open>KeyError\<close> for an airport
  that is not a key.
\<close>

fun append_counts ::
  "(string \<times> int list) list \<Rightarrow> (date \<times> int) list \<Rightarrow> (string \<times> int list) list" where
  "append_counts by_weekday [] = by_weekday"
| "append_counts by_weekday ((date, count) # rest) =
     append_counts
       (AList.update (date_day_name date)
          (dd_get [] by_weekday (date_day_name date) @ [count]) by_weekday)
       rest"

fun group_by_weekday ::
  "(string \<times> (string \<times> int list) list) list \<Rightarrow> availability \<Rightarrow>
   error + (string \<times> (string \<times> int list) list) list" where
  "group_by_weekday m [] = Inr m"
| "group_by_weekday m ((airport, date_list) # rest) =
     (if date_list = [] then group_by_weekday m rest
      else
        (case map_of m airport of
           None \<Rightarrow> Inl KeyError
         | Some by_weekday \<Rightarrow>
             group_by_weekday (AList.update airport (append_counts by_weekday date_list) m)
               rest))"

text \<open>\<^verbatim>\<open>statistics.mean\<close> raises \<^verbatim>\<open>StatisticsError\<close> on no data; on integers it
  computes the exact mean (and hands it out as the nearest float when it is not whole).\<close>

definition mean :: "int list \<Rightarrow> error + rat" where
  "mean counts =
     (if counts = [] then Inl StatisticsError
      else Inr (of_int (sum_list counts) / of_int (int (length counts))))"

fun mean_by_weekday ::
  "(string \<times> rat) list \<Rightarrow> (string \<times> int list) list \<Rightarrow> error + (string \<times> rat) list" where
  "mean_by_weekday means [] = Inr means"
| "mean_by_weekday means ((dow, counts) # rest) =
     (case mean counts of
        Inl e \<Rightarrow> Inl e
      | Inr v \<Rightarrow> mean_by_weekday (AList.update dow v means) rest)"

text \<open>The result is a \<^verbatim>\<open>defaultdict(dict)\<close>: an airport becomes a key at its first
  weekday.\<close>

fun mean_available ::
  "(string \<times> (string \<times> rat) list) list \<Rightarrow> (string \<times> (string \<times> int list) list) list \<Rightarrow>
   error + (string \<times> (string \<times> rat) list) list" where
  "mean_available result [] = Inr result"
| "mean_available result ((airport, date_list) # rest) =
     (if date_list = [] then mean_available result rest
      else
        (case mean_by_weekday (dd_get [] result airport) date_list of
           Inl e \<Rightarrow> Inl e
         | Inr means \<Rightarrow> mean_available (AList.update airport means result) rest))"

text \<open>Everything after the sweep.\<close>

definition summarise ::
  "string list \<Rightarrow> availability \<Rightarrow> error + (string \<times> (string \<times> rat) list) list" where
  "summarise airports avail =
     (case group_by_weekday (init_availability_lists [] airports) avail of
        Inl e \<Rightarrow> Inl e
      | Inr m \<Rightarrow> mean_available [] m)"

text \<open>\<^verbatim>\<open>divmod\<close> by zero raises \<^verbatim>\<open>ZeroDivisionError\<close> before the test of the
  remainder.\<close>

definition aircraft_available_by_airport_and_weekday ::
  "event list \<Rightarrow> string list \<Rightarrow> string list \<Rightarrow> error + (string \<times> (string \<times> rat) list) list" where
  "aircraft_available_by_airport_and_weekday event_list aircraft airports =
     (if length airports = 0 then Inl ZeroDivisionError
      else
        (let aircraft_per_airport = int (length aircraft) div int (length airports);
             mod' = int (length aircraft) mod int (length airports)
         in if mod' \<noteq> 0 then Inl (Exception ''Uneven aircraft distribution!'')
            else
              summarise airports
                (available_aircraft_by_airport_and_date
                   (sweep aircraft_per_airport airports sweep_init event_list))))"

section \<open>Vocabulary of the properties\<close>

text \<open>The events \<open>gather_metadata\<close> looks at: not maintenance, with usage hours.\<close>

abbreviation qualifying_events :: "event list \<Rightarrow> event list" where
  "qualifying_events es \<equiv> filter (\<lambda>e. \<not> is_event_maintenance e \<and> Tach_Total e \<noteq> []) es"

text \<open>Every list of counts holds a count.\<close>

abbreviation nonempty_lists :: "('k \<times> int list) list \<Rightarrow> bool" where
  "nonempty_lists by_weekday \<equiv> \<forall>(w, counts) \<in> set by_weekday. counts \<noteq> []"

text \<open>The aircraft, not among \<open>seen\<close>, whose first event in \<open>es\<close> is at the
  airport.\<close>

abbreviation first_seen_at :: "string list \<Rightarrow> event list \<Rightarrow> string \<Rightarrow> string set" where
  "first_seen_at seen es airport \<equiv>
     {ac. ac \<notin> set seen \<and> map_option Location (find (\<lambda>e. Aircraft e = ac) es) = Some airport}"

text \<open>Every recorded date lies before \<open>b\<close>: the invariant of the sweep, with the
  cursor as \<open>b\<close>.\<close>

definition dates_below :: "date \<Rightarrow> availability \<Rightarrow> bool" where
  "dates_below b avail \<longleftrightarrow> (\<forall>(a, dl) \<in> set avail. \<forall>(d, c) \<in> set dl. d < b)"

section \<open>Properties of is_weekend\<close>

lemma weekday_range: "0 \<le> weekday t \<and> weekday t < 7"
  by (simp add: weekday_def date_weekday_def)

lemma weekday_add_day: "weekday (t + SECONDS_PER_DAY) = (weekday t + 1) mod 7"
proof -
  have "(t + 86400) div 86400 = t div 86400 + (1::int)" by simp
  then show ?thesis
    by (simp add: weekday_def date_weekday_def date_of_def SECONDS_PER_DAY_def
        mod_simps add.commute add.left_commute)
qed

lemma weekday_add_six_days: "weekday (t + 6 * SECONDS_PER_DAY) = (weekday t + 6) mod 7"
proof -
  have "(t + 518400) div 86400 = t div 86400 + (6::int)" by simp
  then show ?thesis
    by (simp add: weekday_def date_weekday_def date_of_def SECONDS_PER_DAY_def
        mod_simps add.commute add.left_commute)
qed

text \<open>From a day that is not after Saturday, the scan reaches a Saturday before it can
  leave the interval or the calendar.\<close>

lemma is_weekend_scan_reaches_saturday:
  "weekday x = 5 - int k \<Longrightarrow> k \<le> 5 \<Longrightarrow> x + int k * SECONDS_PER_DAY < e \<Longrightarrow>
   e \<le> DATETIME_MAX \<Longrightarrow> is_weekend_scan x e = Inr True"
proof (induction k arbitrary: x)
  case 0
  then show ?case by (simp add: is_weekend_scan.simps)
next
  case (Suc k)
  have lt: "x < e" using Suc.prems(3) by (simp add: SECONDS_PER_DAY_def)
  have nw: "weekday x \<notin> set [5, 6]" using Suc.prems(1) by simp
  have fit: "\<not> x + SECONDS_PER_DAY > DATETIME_MAX"
    using Suc.prems(3,4) by (simp add: SECONDS_PER_DAY_def)
  have wd: "weekday (x + SECONDS_PER_DAY) = 5 - int k"
    using Suc.prems(1,2) by (simp add: weekday_add_day)
  have nxt: "x + SECONDS_PER_DAY + int k * SECONDS_PER_DAY < e"
    using Suc.prems(3) by (simp add: algebra_simps)
  have "is_weekend_scan (x + SECONDS_PER_DAY) e = Inr True"
    using Suc.IH [OF wd _ nxt Suc.prems(4)] Suc.prems(2) by simp
  then show ?case
    using lt nw fit by (subst is_weekend_scan.simps) simp
qed

text \<open>
  C7. For timestamps \<open>start \<le> end\<close> at least six days apart, \<open>is_weekend\<close> returns
  True, and for a single point in time on a Tuesday it returns False. An interval of
  more than six days takes the fast path; one of exactly six days either has a weekend
  endpoint or is scanned, and the scan meets a Saturday.
\<close>

theorem is_weekend_six_days_and_tuesday_point:
  "(valid_datetime start \<and> valid_datetime end' \<and> end' - start \<ge> 6 * SECONDS_PER_DAY
      \<longrightarrow> is_weekend start end' = Inr True)
   \<and> (weekday t = 1 \<longrightarrow> is_weekend t t = Inr False)"
proof (intro conjI impI)
  assume a: "valid_datetime start \<and> valid_datetime end' \<and> end' - start \<ge> 6 * SECONDS_PER_DAY"
  show "is_weekend start end' = Inr True"
  proof (cases "weekday start \<in> set [5, 6] \<or> weekday end' \<in> set [5, 6]")
    case True
    then show ?thesis by (simp add: is_weekend_def)
  next
    case nwe: False
    show ?thesis
    proof (cases "end' - start > 6 * SECONDS_PER_DAY")
      case True
      then show ?thesis using nwe by (simp add: is_weekend_def SECONDS_PER_DAY_def)
    next
      case False
      then have e: "end' = start + 6 * SECONDS_PER_DAY" using a by simp
      have r: "0 \<le> weekday start \<and> weekday start < 7" by (rule weekday_range)
      have w6: "weekday end' = (weekday start + 6) mod 7"
        unfolding e by (rule weekday_add_six_days)
      have ws: "weekday start \<noteq> 5 \<and> weekday start \<noteq> 6 \<and> weekday start \<noteq> 0"
        using nwe w6 r by auto
      obtain k :: nat where k: "weekday start = 5 - int k" "k \<le> 5" "1 \<le> k"
      proof
        show "weekday start = 5 - int (nat (5 - weekday start))" using r ws by simp
        show "nat (5 - weekday start) \<le> 5" using r by linarith
        show "1 \<le> nat (5 - weekday start)" using r ws by linarith
      qed
      have ws1: "1 \<le> weekday start" using r ws by simp
      have "int k \<le> 4" using k(1) ws1 by simp
      then have lt: "start + int k * SECONDS_PER_DAY < end'"
        unfolding e by (simp add: SECONDS_PER_DAY_def)
      have mx: "end' \<le> DATETIME_MAX" using a by (simp add: valid_datetime_def)
      have "is_weekend_scan start end' = Inr True"
        by (rule is_weekend_scan_reaches_saturday [OF k(1) k(2) lt mx])
      then show ?thesis using nwe False e by (simp add: is_weekend_def SECONDS_PER_DAY_def)
    qed
  qed
next
  assume "weekday t = 1"
  then show "is_weekend t t = Inr False"
    by (simp add: is_weekend_def SECONDS_PER_DAY_def)
qed

theorem is_weekend_six_days_and_tuesday_point_witness:
  "valid_datetime 0 \<and> valid_datetime 518400 \<and> 518400 - 0 \<ge> 6 * SECONDS_PER_DAY
   \<and> is_weekend 0 518400 = Inr True
   \<and> weekday 432000 = 1 \<and> is_weekend 432000 432000 = Inr False"
proof -
  have v: "valid_datetime 0 \<and> valid_datetime 518400 \<and> 518400 - 0 \<ge> 6 * SECONDS_PER_DAY"
    by (simp add: valid_datetime_def DATETIME_MIN_def DATETIME_MAX_def SECONDS_PER_DAY_def)
  have w: "weekday 432000 = 1"
    by (simp add: weekday_def date_weekday_def date_of_def SECONDS_PER_DAY_def)
  show ?thesis
    using v w is_weekend_six_days_and_tuesday_point [of 0 518400 432000] by simp
qed

section \<open>Properties of gather_metadata\<close>

lemma Min_insert_min:
  "finite S \<Longrightarrow> Min (insert (min a b) S) = Min (insert a (insert b S))"
  by (cases "S = {}") (simp_all add: min.assoc)

lemma Max_insert_max:
  "finite S \<Longrightarrow> Max (insert (max a b) S) = Max (insert a (insert b S))"
  by (cases "S = {}") (simp_all add: max.assoc)

text \<open>Once both variables are set, the loop keeps the least start and the greatest
  end of what it has seen.\<close>

lemma gather_metadata_loop_Some:
  "\<exists>f' l'. gather_metadata_loop (Some f) (Some l) es = (Some f', Some l')
     \<and> Start f' = Min (insert (Start f) (Start ` set (qualifying_events es)))
     \<and> End l' = Max (insert (End l) (End ` set (qualifying_events es)))"
proof (induction es arbitrary: f l)
  case Nil
  then show ?case by simp
next
  case (Cons e es)
  show ?case
  proof (cases "\<not> is_event_maintenance e \<and> Tach_Total e \<noteq> []")
    case False
    then show ?thesis using Cons.IH [of f l] by auto
  next
    case True
    let ?f = "if Start e < Start f then e else f"
    let ?l = "if End e > End l then e else l"
    have step: "gather_metadata_loop (Some f) (Some l) (e # es)
        = gather_metadata_loop (Some ?f) (Some ?l) es"
      using True by simp
    have sf: "Start ?f = min (Start e) (Start f)" by (simp add: min_def)
    have el: "End ?l = max (End e) (End l)" by (simp add: max_def)
    obtain f' l' where r: "gather_metadata_loop (Some ?f) (Some ?l) es = (Some f', Some l')"
      "Start f' = Min (insert (Start ?f) (Start ` set (qualifying_events es)))"
      "End l' = Max (insert (End ?l) (End ` set (qualifying_events es)))"
      using Cons.IH [of ?f ?l] by blast
    have "Start f' = Min (insert (Start f) (Start ` set (qualifying_events (e # es))))"
      unfolding r(2) sf using True
      by (simp add: Min_insert_min insert_commute)
    moreover have "End l' = Max (insert (End l) (End ` set (qualifying_events (e # es))))"
      unfolding r(3) el using True
      by (simp add: Max_insert_max insert_commute)
    ultimately show ?thesis using step r(1) by simp
  qed
qed

lemma gather_metadata_loop_None:
  "qualifying_events es = [] \<Longrightarrow> gather_metadata_loop None None es = (None, None)"
  by (induction es) (auto split: if_splits)

lemma gather_metadata_loop_first:
  "qualifying_events es \<noteq> [] \<Longrightarrow>
   \<exists>f' l'. gather_metadata_loop None None es = (Some f', Some l')
     \<and> Start f' = Min (Start ` set (qualifying_events es))
     \<and> End l' = Max (End ` set (qualifying_events es))"
proof (induction es)
  case Nil
  then show ?case by simp
next
  case (Cons e es)
  show ?case
  proof (cases "\<not> is_event_maintenance e \<and> Tach_Total e \<noteq> []")
    case False
    then show ?thesis using Cons by auto
  next
    case True
    have step: "gather_metadata_loop None None (e # es)
        = gather_metadata_loop (Some e) (Some e) es"
      using True by simp
    show ?thesis
      unfolding step using gather_metadata_loop_Some [of e e es] True by simp
  qed
qed

text \<open>
  C9. When some event is neither maintenance nor without usage hours,
  \<open>gather_metadata\<close> returns the earliest start and the latest end among those
  events, their distance in whole days, and as \<open>num_events\<close> the length of the whole
  list; when there is no such event it fails (Python raises \<^verbatim>\<open>TypeError\<close> at
  \<^verbatim>\<open>first_event["Start"]\<close>).
\<close>

theorem gather_metadata_bounds:
  "(qualifying_events es \<noteq> [] \<longrightarrow>
      gather_metadata es =
        Inr \<lparr> start_date = Min (Start ` set (qualifying_events es)),
              end_date = Max (End ` set (qualifying_events es)),
              length_days =
                (Max (End ` set (qualifying_events es)) - Min (Start ` set (qualifying_events es)))
                div SECONDS_PER_DAY,
              num_events = int (length es) \<rparr>)
   \<and> (qualifying_events es = [] \<longrightarrow> gather_metadata es = Inl TypeError)"
proof (intro conjI impI)
  assume "qualifying_events es \<noteq> []"
  then obtain f' l' where r: "gather_metadata_loop None None es = (Some f', Some l')"
      "Start f' = Min (Start ` set (qualifying_events es))"
      "End l' = Max (End ` set (qualifying_events es))"
    using gather_metadata_loop_first [of es] by blast
  show "gather_metadata es =
        Inr \<lparr> start_date = Min (Start ` set (qualifying_events es)),
              end_date = Max (End ` set (qualifying_events es)),
              length_days =
                (Max (End ` set (qualifying_events es)) - Min (Start ` set (qualifying_events es)))
                div SECONDS_PER_DAY,
              num_events = int (length es) \<rparr>"
    using r by (simp add: gather_metadata_def)
next
  assume "qualifying_events es = []"
  then show "gather_metadata es = Inl TypeError"
    by (simp add: gather_metadata_def gather_metadata_loop_None)
qed

theorem gather_metadata_bounds_witness:
  "qualifying_events
     [\<lparr> Aircraft = ''N1'', Location = ''KAAA'', Start = 0, End = 900000,
         Type = ''Maintenance'', Tach_Total = ''2.0'' \<rparr>,
      \<lparr> Aircraft = ''N1'', Location = ''KAAA'', Start = 100000, End = 500000,
         Type = ''Reservation'', Tach_Total = ''1.5'' \<rparr>,
      \<lparr> Aircraft = ''N2'', Location = ''KBBB'', Start = 50000, End = 200000,
         Type = ''Reservation'', Tach_Total = ''0.7'' \<rparr>,
      \<lparr> Aircraft = ''N2'', Location = ''KBBB'', Start = 10, End = 990000,
         Type = ''Reservation'', Tach_Total = [] \<rparr>] \<noteq> []
   \<and> gather_metadata
     [\<lparr> Aircraft = ''N1'', Location = ''KAAA'', Start = 0, End = 900000,
         Type = ''Maintenance'', Tach_Total = ''2.0'' \<rparr>,
      \<lparr> Aircraft = ''N1'', Location = ''KAAA'', Start = 100000, End = 500000,
         Type = ''Reservation'', Tach_Total = ''1.5'' \<rparr>,
      \<lparr> Aircraft = ''N2'', Location = ''KBBB'', Start = 50000, End = 200000,
         Type = ''Reservation'', Tach_Total = ''0.7'' \<rparr>,
      \<lparr> Aircraft = ''N2'', Location = ''KBBB'', Start = 10, End = 990000,
         Type = ''Reservation'', Tach_Total = [] \<rparr>]
     = Inr \<lparr> start_date = 50000, end_date = 500000, length_days = 5, num_events = 4 \<rparr>
   \<and> qualifying_events
     [\<lparr> Aircraft = ''N1'', Location = ''KAAA'', Start = 0, End = 900000,
         Type = ''Maintenance'', Tach_Total = ''2.0'' \<rparr>] = []
   \<and> gather_metadata
     [\<lparr> Aircraft = ''N1'', Location = ''KAAA'', Start = 0, End = 900000,
         Type = ''Maintenance'', Tach_Total = ''2.0'' \<rparr>] = Inl TypeError"
  using
    gather_metadata_bounds [of
      "[\<lparr> Aircraft = ''N1'', Location = ''KAAA'', Start = 0, End = 900000,
          Type = ''Maintenance'', Tach_Total = ''2.0'' \<rparr>,
        \<lparr> Aircraft = ''N1'', Location = ''KAAA'', Start = 100000, End = 500000,
          Type = ''Reservation'', Tach_Total = ''1.5'' \<rparr>,
        \<lparr> Aircraft = ''N2'', Location = ''KBBB'', Start = 50000, End = 200000,
          Type = ''Reservation'', Tach_Total = ''0.7'' \<rparr>,
        \<lparr> Aircraft = ''N2'', Location = ''KBBB'', Start = 10, End = 990000,
          Type = ''Reservation'', Tach_Total = [] \<rparr>]"]
    gather_metadata_bounds [of
      "[\<lparr> Aircraft = ''N1'', Location = ''KAAA'', Start = 0, End = 900000,
          Type = ''Maintenance'', Tach_Total = ''2.0'' \<rparr>]"]
  by (simp add: is_event_maintenance_def SECONDS_PER_DAY_def)

section \<open>Counters and association lists\<close>

lemma dd_get_update:
  "dd_get dflt (AList.update k v c) k' = (if k' = k then v else dd_get dflt c k')"
  by (simp add: dd_get_def update_conv')

lemma sum_list_update:
  "sum_list (map snd (AList.update k v c)) = sum_list (map snd c) - dd_get 0 c k + (v::int)"
  by (induction c) (auto simp: dd_get_def)

lemma sum_list_counter_incr:
  "sum_list (map snd (counter_incr k c)) = sum_list (map snd c) + 1"
  by (simp add: counter_incr_def sum_list_update)

lemma dd_get_counter_incr:
  "dd_get 0 (counter_incr k c) k' = dd_get 0 c k' + (if k' = k then 1 else 0)"
  by (simp add: counter_incr_def dd_get_update)

lemma keys_counter_incr: "fst ` set (counter_incr k c) = insert k (fst ` set c)"
  by (simp add: counter_incr_def dom_update)

lemma distinct_counter_incr:
  "distinct (map fst c) \<Longrightarrow> distinct (map fst (counter_incr k c))"
  by (simp add: counter_incr_def distinct_update)

section \<open>Properties of length_histogram\<close>

text \<open>The ceiling in whole-number arithmetic.\<close>

lemma length_hours_div: "length_hours e = - ((Start e - End e) div 3600)"
proof -
  have "\<lceil>(of_int (End e - Start e) :: rat) / of_int 3600\<rceil> = - (- (End e - Start e) div 3600)"
    by (rule ceiling_divide_eq_div)
  then show ?thesis by (simp add: length_hours_def)
qed

lemma length_histogram_loop_sum:
  "sum_list (map snd (length_histogram_loop c es))
     = sum_list (map snd c) + int (length (filter (\<lambda>e. \<not> is_event_maintenance e) es))"
  by (induction es arbitrary: c) (simp_all add: sum_list_counter_incr)

lemma length_histogram_loop_count:
  "dd_get 0 (length_histogram_loop c es) k
     = dd_get 0 c k
       + int (length (filter (\<lambda>e. \<not> is_event_maintenance e \<and> length_hours e = k) es))"
  by (induction es arbitrary: c) (auto simp: dd_get_counter_incr)

lemma length_histogram_loop_keys:
  "fst ` set (length_histogram_loop c es)
     = fst ` set c \<union> length_hours ` {e \<in> set es. \<not> is_event_maintenance e}"
  by (induction es arbitrary: c) (auto simp: keys_counter_incr)

lemma length_histogram_loop_distinct:
  "distinct (map fst c) \<Longrightarrow> distinct (map fst (length_histogram_loop c es))"
  by (induction es arbitrary: c) (simp_all add: distinct_counter_incr)

text \<open>Sorting by key moves the entries of a dictionary and changes none.\<close>

lemma distinct_fst_insort_key:
  "distinct (map fst (insort_key fst x xs)) \<longleftrightarrow> fst x \<notin> fst ` set xs \<and> distinct (map fst xs)"
  by (induction xs) (auto simp: set_insort_key)

lemma distinct_fst_sort_key:
  "distinct (map fst (sort_key fst xs)) \<longleftrightarrow> distinct (map fst xs)"
  by (induction xs) (auto simp: distinct_fst_insort_key)

lemma sum_list_insort_key:
  "sum_list (map snd (insort_key fst x xs)) = snd x + sum_list (map snd (xs :: (int \<times> int) list))"
  by (induction xs) auto

lemma sum_list_sort_key:
  "sum_list (map snd (sort_key fst xs)) = sum_list (map snd (xs :: (int \<times> int) list))"
  by (induction xs) (auto simp: sum_list_insort_key)

lemma map_of_sort_key:
  "distinct (map fst xs) \<Longrightarrow> map_of (sort_key fst xs) = map_of xs"
  by (simp add: map_of_inject_set distinct_fst_sort_key)

text \<open>
  C8. The values of the histogram add up to the number of events that are not
  maintenance. The count at a bucket is the number of such events whose length in
  hours, rounded up, is that bucket; the buckets are exactly the lengths that occur, in
  ascending order; and an event of 90 minutes has length 2.
\<close>

theorem length_histogram_counts:
  "sum_list (map snd (length_histogram es))
     = int (length (filter (\<lambda>e. \<not> is_event_maintenance e) es))
   \<and> (\<forall>k. dd_get 0 (length_histogram es) k
        = int (length (filter (\<lambda>e. \<not> is_event_maintenance e \<and> length_hours e = k) es)))
   \<and> (\<forall>k. k \<in> fst ` set (length_histogram es)
        \<longleftrightarrow> (\<exists>e \<in> set es. \<not> is_event_maintenance e \<and> length_hours e = k))
   \<and> sorted (map fst (length_histogram es)) \<and> distinct (map fst (length_histogram es))
   \<and> (\<forall>e. length_hours e = \<lceil>(of_int (End e - Start e) :: rat) / 3600\<rceil>)
   \<and> (\<forall>e. End e - Start e = 90 * 60 \<longrightarrow> length_hours e = 2)"
proof (intro conjI allI impI)
  have d: "distinct (map fst (length_histogram_loop [] es))"
    by (rule length_histogram_loop_distinct) simp
  show "sum_list (map snd (length_histogram es))
     = int (length (filter (\<lambda>e. \<not> is_event_maintenance e) es))"
    by (simp add: length_histogram_def sum_list_sort_key length_histogram_loop_sum)
  show "dd_get 0 (length_histogram es) k
        = int (length (filter (\<lambda>e. \<not> is_event_maintenance e \<and> length_hours e = k) es))" for k
    using length_histogram_loop_count [of "[]" es k]
    by (simp add: length_histogram_def dd_get_def map_of_sort_key [OF d])
  show "k \<in> fst ` set (length_histogram es)
        \<longleftrightarrow> (\<exists>e \<in> set es. \<not> is_event_maintenance e \<and> length_hours e = k)" for k
    by (auto simp: length_histogram_def length_histogram_loop_keys)
  show "sorted (map fst (length_histogram es))"
    by (simp add: length_histogram_def)
  show "distinct (map fst (length_histogram es))"
    using d by (simp add: length_histogram_def distinct_fst_sort_key)
  show "length_hours e = \<lceil>(of_int (End e - Start e) :: rat) / 3600\<rceil>" for e
    by (simp add: length_hours_def)
  show "length_hours e = 2" if "End e - Start e = 90 * 60" for e
    using that by (simp add: length_hours_div)
qed

theorem length_histogram_counts_witness:
  "length_histogram
     [\<lparr> Aircraft = ''N1'', Location = ''KAAA'', Start = 0, End = 5400,
         Type = ''Reservation'', Tach_Total = ''1.5'' \<rparr>,
      \<lparr> Aircraft = ''N1'', Location = ''KAAA'', Start = 7200, End = 10800,
         Type = ''Reservation'', Tach_Total = ''1.0'' \<rparr>,
      \<lparr> Aircraft = ''N1'', Location = ''KAAA'', Start = 10800, End = 36000,
         Type = ''Maintenance'', Tach_Total = [] \<rparr>,
      \<lparr> Aircraft = ''N2'', Location = ''KAAA'', Start = 100, End = 3701,
         Type = ''Reservation'', Tach_Total = ''1.0'' \<rparr>]
     = [(1, 1), (2, 2)]
   \<and> sum_list (map snd
       (length_histogram
          [\<lparr> Aircraft = ''N1'', Location = ''KAAA'', Start = 0, End = 5400,
              Type = ''Reservation'', Tach_Total = ''1.5'' \<rparr>,
           \<lparr> Aircraft = ''N1'', Location = ''KAAA'', Start = 7200, End = 10800,
              Type = ''Reservation'', Tach_Total = ''1.0'' \<rparr>,
           \<lparr> Aircraft = ''N1'', Location = ''KAAA'', Start = 10800, End = 36000,
              Type = ''Maintenance'', Tach_Total = [] \<rparr>,
           \<lparr> Aircraft = ''N2'', Location = ''KAAA'', Start = 100, End = 3701,
              Type = ''Reservation'', Tach_Total = ''1.0'' \<rparr>])) = 3
   \<and> End \<lparr> Aircraft = ''N1'', Location = ''KAAA'', Start = 0, End = 5400,
           Type = ''Reservation'', Tach_Total = ''1.5'' \<rparr>
       - Start \<lparr> Aircraft = ''N1'', Location = ''KAAA'', Start = 0, End = 5400,
           Type = ''Reservation'', Tach_Total = ''1.5'' \<rparr> = 90 * 60
   \<and> length_hours \<lparr> Aircraft = ''N1'', Location = ''KAAA'', Start = 0, End = 5400,
           Type = ''Reservation'', Tach_Total = ''1.5'' \<rparr> = 2"
proof -
  let ?es =
    "[\<lparr> Aircraft = ''N1'', Location = ''KAAA'', Start = 0, End = 5400,
         Type = ''Reservation'', Tach_Total = ''1.5'' \<rparr>,
      \<lparr> Aircraft = ''N1'', Location = ''KAAA'', Start = 7200, End = 10800,
         Type = ''Reservation'', Tach_Total = ''1.0'' \<rparr>,
      \<lparr> Aircraft = ''N1'', Location = ''KAAA'', Start = 10800, End = 36000,
         Type = ''Maintenance'', Tach_Total = [] \<rparr>,
      \<lparr> Aircraft = ''N2'', Location = ''KAAA'', Start = 100, End = 3701,
         Type = ''Reservation'', Tach_Total = ''1.0'' \<rparr>]"
  have h: "length_histogram ?es = [(1, 1), (2, 2)]"
    by (simp add: length_histogram_def is_event_maintenance_def length_hours_div
        counter_incr_def dd_get_def)
  have s: "sum_list (map snd (length_histogram ?es)) = 3"
    using length_histogram_counts [of ?es] by (simp add: is_event_maintenance_def)
  show ?thesis using h s by (simp add: length_hours_div)
qed

section \<open>Properties of days_between_usage\<close>

text \<open>
  C4. The code does not advance the stored previous event when the new event starts on
  the date on which the previous one ended: the \<^verbatim>\<open>continue\<close> leaves the loop body
  before the assignment. With a first event that ends on 1970-01-01 at 10:00 and a second
  one of the same aircraft from 14:00 that day to 1970-01-03 10:00, the stored event
  after the second is still the first; a third event that starts on 1970-01-04 at 10:00
  is then measured against the end of the first, a gap of 3 days where the aircraft was
  idle for one. The other skip of the loop does advance: after a maintenance event on a
  later date the stored event is the maintenance event, with no gap recorded.
\<close>

theorem days_between_usage_same_day_keeps_previous:
  "map_of
     (last_event_by_name
        (days_between_usage_loop \<lparr> deltas_by_name = [], last_event_by_name = [] \<rparr>
           [\<lparr> Aircraft = ''N123'', Location = ''KXYZ'', Start = 0, End = 36000,
               Type = ''Reservation'', Tach_Total = ''1.0'' \<rparr>,
            \<lparr> Aircraft = ''N123'', Location = ''KXYZ'', Start = 50400, End = 208800,
               Type = ''Reservation'', Tach_Total = ''1.0'' \<rparr>]))
     ''N123''
   = Some \<lparr> Aircraft = ''N123'', Location = ''KXYZ'', Start = 0, End = 36000,
            Type = ''Reservation'', Tach_Total = ''1.0'' \<rparr>
   \<and> days_between_usage
       [\<lparr> Aircraft = ''N123'', Location = ''KXYZ'', Start = 0, End = 36000,
           Type = ''Reservation'', Tach_Total = ''1.0'' \<rparr>,
        \<lparr> Aircraft = ''N123'', Location = ''KXYZ'', Start = 50400, End = 208800,
           Type = ''Reservation'', Tach_Total = ''1.0'' \<rparr>,
        \<lparr> Aircraft = ''N123'', Location = ''KXYZ'', Start = 295200, End = 298800,
           Type = ''Reservation'', Tach_Total = ''1.0'' \<rparr>]
     = [(''N123'', [3])]
   \<and> days_between_usage_loop \<lparr> deltas_by_name = [], last_event_by_name = [] \<rparr>
       [\<lparr> Aircraft = ''N123'', Location = ''KXYZ'', Start = 0, End = 36000,
           Type = ''Reservation'', Tach_Total = ''1.0'' \<rparr>,
        \<lparr> Aircraft = ''N123'', Location = ''KXYZ'', Start = 122400, End = 208800,
           Type = ''Maintenance'', Tach_Total = [] \<rparr>]
     = \<lparr> deltas_by_name = [],
         last_event_by_name =
           [(''N123'',
             \<lparr> Aircraft = ''N123'', Location = ''KXYZ'', Start = 122400, End = 208800,
               Type = ''Maintenance'', Tach_Total = [] \<rparr>)] \<rparr>"
  by (simp add: days_between_usage_def days_between_usage_step_def date_of_def
      SECONDS_PER_DAY_def is_event_maintenance_def dd_get_def Let_def)

section \<open>Properties of usage_by_weekday\<close>

text \<open>The walk visits \<open>x\<close>, \<open>x\<close> plus one day, and so on while it is before the end of
  the event: \<open>n\<close> visits when the end lies within \<open>n\<close> days of \<open>x\<close> and not
  within \<open>n - 1\<close>.\<close>

lemma day_steps_Suc:
  "length (filter (\<lambda>k. day_name (x + int k * SECONDS_PER_DAY) = w) [0..<Suc n])
     = (if day_name x = w then 1 else 0)
       + length (filter (\<lambda>k. day_name (x + SECONDS_PER_DAY + int k * SECONDS_PER_DAY) = w) [0..<n])"
proof -
  have "[0..<Suc n] = 0 # map Suc [0..<n]"
    by (simp add: upt_conv_Cons map_Suc_upt del: upt_Suc)
  then show ?thesis
    by (simp add: filter_map o_def algebra_simps del: upt_Suc)
qed

lemma usage_walk_steps:
  "End e \<le> x + int n * SECONDS_PER_DAY \<Longrightarrow>
   (0 < n \<longrightarrow> x + (int n - 1) * SECONDS_PER_DAY < End e) \<Longrightarrow>
   (0 < n \<longrightarrow> x + int n * SECONDS_PER_DAY \<le> DATETIME_MAX) \<Longrightarrow>
   \<exists>d'. usage_walk d e x = Inr d'
     \<and> (\<forall>w. dd_get 0 (dd_get [] d' (Aircraft e)) w
          = dd_get 0 (dd_get [] d (Aircraft e)) w
            + int (length (filter (\<lambda>k. day_name (x + int k * SECONDS_PER_DAY) = w) [0..<n])))
     \<and> (\<forall>a. a \<noteq> Aircraft e \<longrightarrow> dd_get [] d' a = dd_get [] d a)
     \<and> sum_list (map snd (dd_get [] d' (Aircraft e)))
          = sum_list (map snd (dd_get [] d (Aircraft e))) + int n
     \<and> (n = 0 \<longrightarrow> d' = d)"
proof (induction n arbitrary: d x)
  case 0
  then have "\<not> x < End e" by simp
  then show ?case by (subst usage_walk.simps) simp
next
  case (Suc n)
  let ?d1 = "AList.update (Aircraft e)
                (counter_incr (day_name x) (dd_get [] d (Aircraft e))) d"
  have pos: "0 < SECONDS_PER_DAY" by (simp add: SECONDS_PER_DAY_def)
  have "x + int n * SECONDS_PER_DAY < End e" using Suc.prems(2) by simp
  moreover have "0 \<le> int n * SECONDS_PER_DAY" using pos by simp
  ultimately have lt: "x < End e" by linarith
  have "x + SECONDS_PER_DAY \<le> x + int (Suc n) * SECONDS_PER_DAY"
    using pos by (simp add: algebra_simps)
  then have fit: "\<not> x + SECONDS_PER_DAY > DATETIME_MAX" using Suc.prems(3) by simp
  have step: "usage_walk d e x = usage_walk ?d1 e (x + SECONDS_PER_DAY)"
    using lt fit by (subst usage_walk.simps) simp
  have p1: "End e \<le> x + SECONDS_PER_DAY + int n * SECONDS_PER_DAY"
    using Suc.prems(1) by (simp add: algebra_simps)
  have p2: "0 < n \<longrightarrow> x + SECONDS_PER_DAY + (int n - 1) * SECONDS_PER_DAY < End e"
    using Suc.prems(2) by (simp add: algebra_simps)
  have p3: "0 < n \<longrightarrow> x + SECONDS_PER_DAY + int n * SECONDS_PER_DAY \<le> DATETIME_MAX"
    using Suc.prems(3) by (simp add: algebra_simps)
  obtain d' where r: "usage_walk ?d1 e (x + SECONDS_PER_DAY) = Inr d'"
    "\<And>w. dd_get 0 (dd_get [] d' (Aircraft e)) w
          = dd_get 0 (dd_get [] ?d1 (Aircraft e)) w
            + int (length (filter
                (\<lambda>k. day_name (x + SECONDS_PER_DAY + int k * SECONDS_PER_DAY) = w) [0..<n]))"
    "\<And>a. a \<noteq> Aircraft e \<Longrightarrow> dd_get [] d' a = dd_get [] ?d1 a"
    "sum_list (map snd (dd_get [] d' (Aircraft e)))
          = sum_list (map snd (dd_get [] ?d1 (Aircraft e))) + int n"
    using Suc.IH [OF p1 p2 p3, of ?d1] by blast
  have c: "dd_get 0 (dd_get [] d' (Aircraft e)) w
          = dd_get 0 (dd_get [] d (Aircraft e)) w
            + int (length (filter (\<lambda>k. day_name (x + int k * SECONDS_PER_DAY) = w) [0..<Suc n]))"
    for w
    unfolding r(2) day_steps_Suc by (simp add: dd_get_update dd_get_counter_incr)
  have o: "dd_get [] d' a = dd_get [] d a" if "a \<noteq> Aircraft e" for a
    using r(3) [OF that] that by (simp add: dd_get_update)
  have t: "sum_list (map snd (dd_get [] d' (Aircraft e)))
          = sum_list (map snd (dd_get [] d (Aircraft e))) + int (Suc n)"
    unfolding r(4) by (simp add: dd_get_update sum_list_counter_incr)
  show ?case
    unfolding step using r(1) c o t by simp
qed

lemma usage_by_weekday_loop_append:
  "usage_by_weekday_loop d (es @ [e]) =
     (case usage_by_weekday_loop d es of
        Inl err \<Rightarrow> Inl err
      | Inr d' \<Rightarrow> usage_by_weekday_loop d' [e])"
  by (induction es arbitrary: d) (auto split: sum.splits)

text \<open>
  C5, as the code has it. The walk starts at the start of the event and counts wherever
  it stands before the end, with no regard to midnights. So an event that is not
  maintenance adds to the counters of its aircraft one count for each started day of its
  length: none when it ends at or before its start, one when it is longer than that and
  at most a day (also when no midnight lies in it), and three when it lasts exactly
  three days. The counts fall on the weekdays of the start, of the start plus one day,
  and so on; the counters of other aircraft stay as they are. The walk must stay within
  the range of \<^verbatim>\<open>datetime\<close>.
\<close>

theorem usage_by_weekday_event_contribution:
  assumes "usage_by_weekday es = Inr d"
    and "\<not> is_event_maintenance e"
    and "n = nat ((End e - Start e + (SECONDS_PER_DAY - 1)) div SECONDS_PER_DAY)"
    and "Start e + int n * SECONDS_PER_DAY \<le> DATETIME_MAX"
  shows "\<exists>d'. usage_by_weekday (es @ [e]) = Inr d'
     \<and> (\<forall>w. dd_get 0 (dd_get [] d' (Aircraft e)) w
          = dd_get 0 (dd_get [] d (Aircraft e)) w
            + int (length (filter (\<lambda>k. day_name (Start e + int k * SECONDS_PER_DAY) = w) [0..<n])))
     \<and> (\<forall>a. a \<noteq> Aircraft e \<longrightarrow> dd_get [] d' a = dd_get [] d a)
     \<and> sum_list (map snd (dd_get [] d' (Aircraft e)))
          = sum_list (map snd (dd_get [] d (Aircraft e))) + int n
     \<and> (End e \<le> Start e \<longrightarrow> n = 0 \<and> d' = d)
     \<and> (Start e < End e \<and> End e - Start e \<le> SECONDS_PER_DAY \<longrightarrow> n = 1)
     \<and> (End e - Start e = 3 * SECONDS_PER_DAY \<longrightarrow> n = 3)"
proof -
  let ?t = "End e - Start e"
  have n0: "int n = (if ?t \<le> 0 then 0 else (?t + 86399) div 86400)"
    using assms(3) by (auto simp: SECONDS_PER_DAY_def)
  define q where "q = (?t + 86399) div 86400"
  define r where "r = (?t + 86399) mod 86400"
  have qr: "?t + 86399 = q * 86400 + r" "0 \<le> r" "r < 86400"
    by (simp_all add: q_def r_def)
  have nq: "int n = (if ?t \<le> 0 then 0 else q)" using n0 by (simp add: q_def)
  have h1: "End e \<le> Start e + int n * SECONDS_PER_DAY"
    using qr nq by (auto simp: SECONDS_PER_DAY_def split: if_splits)
  have h2: "0 < n \<longrightarrow> Start e + (int n - 1) * SECONDS_PER_DAY < End e"
    using qr nq by (auto simp: SECONDS_PER_DAY_def algebra_simps split: if_splits)
  have h3: "0 < n \<longrightarrow> Start e + int n * SECONDS_PER_DAY \<le> DATETIME_MAX"
    using assms(4) by simp
  obtain d' where r: "usage_walk d e (Start e) = Inr d'"
    "\<forall>w. dd_get 0 (dd_get [] d' (Aircraft e)) w
          = dd_get 0 (dd_get [] d (Aircraft e)) w
            + int (length (filter (\<lambda>k. day_name (Start e + int k * SECONDS_PER_DAY) = w) [0..<n]))"
    "\<forall>a. a \<noteq> Aircraft e \<longrightarrow> dd_get [] d' a = dd_get [] d a"
    "sum_list (map snd (dd_get [] d' (Aircraft e)))
          = sum_list (map snd (dd_get [] d (Aircraft e))) + int n"
    "n = 0 \<longrightarrow> d' = d"
    using usage_walk_steps [OF h1 h2 h3, of d] by blast
  have run: "usage_by_weekday (es @ [e]) = Inr d'"
    using assms(1,2) r(1)
    by (simp add: usage_by_weekday_def usage_by_weekday_loop_append)
  have z: "End e \<le> Start e \<longrightarrow> n = 0 \<and> d' = d"
    using n0 r(5) by auto
  have one: "Start e < End e \<and> End e - Start e \<le> SECONDS_PER_DAY \<longrightarrow> n = 1"
    using qr nq by (auto simp: SECONDS_PER_DAY_def split: if_splits)
  have three: "End e - Start e = 3 * SECONDS_PER_DAY \<longrightarrow> n = 3"
    using n0 by (auto simp: SECONDS_PER_DAY_def)
  show ?thesis using run r(2,3,4) z one three by blast
qed

lemma three_days_from_thursday:
  "length (filter (\<lambda>k. day_name (36000 + int k * SECONDS_PER_DAY) = ''Friday'') [0..<3]) = 1"
  by code_simp

theorem usage_by_weekday_event_contribution_witness:
  "usage_by_weekday [] = Inr []
   \<and> \<not> is_event_maintenance
         \<lparr> Aircraft = ''N1'', Location = ''KAAA'', Start = 36000, End = 295200,
           Type = ''Reservation'', Tach_Total = ''1.5'' \<rparr>
   \<and> (3::nat) = nat ((295200 - 36000 + (SECONDS_PER_DAY - 1)) div SECONDS_PER_DAY)
   \<and> 36000 + int 3 * SECONDS_PER_DAY \<le> DATETIME_MAX
   \<and> (\<exists>d'. usage_by_weekday
            [\<lparr> Aircraft = ''N1'', Location = ''KAAA'', Start = 36000, End = 295200,
                Type = ''Reservation'', Tach_Total = ''1.5'' \<rparr>] = Inr d'
          \<and> sum_list (map snd (dd_get [] d' ''N1'')) = 3
          \<and> dd_get 0 (dd_get [] d' ''N1'') ''Friday'' = 1)"
proof -
  define e where "e = \<lparr> Aircraft = ''N1'', Location = ''KAAA'', Start = 36000, End = 295200,
           Type = ''Reservation'', Tach_Total = ''1.5'' \<rparr>"
  have sel: "Aircraft e = ''N1''" "Start e = 36000" "End e = 295200"
    by (simp_all add: e_def)
  have h1: "usage_by_weekday [] = Inr []" by (simp add: usage_by_weekday_def)
  have h2: "\<not> is_event_maintenance e" by (simp add: is_event_maintenance_def e_def)
  have h3: "(3::nat) = nat ((End e - Start e + (SECONDS_PER_DAY - 1)) div SECONDS_PER_DAY)"
    by (simp add: sel SECONDS_PER_DAY_def)
  have h4: "Start e + int 3 * SECONDS_PER_DAY \<le> DATETIME_MAX"
    by (simp add: sel SECONDS_PER_DAY_def DATETIME_MAX_def)
  note th = usage_by_weekday_event_contribution [OF h1 h2 h3 h4]
  from th show ?thesis
  proof (elim exE conjE)
    fix d'
    assume r: "usage_by_weekday ([] @ [e]) = Inr d'"
      and c: "\<forall>w. dd_get 0 (dd_get [] d' (Aircraft e)) w
          = dd_get 0 (dd_get [] [] (Aircraft e)) w
            + int (length (filter (\<lambda>k. day_name (Start e + int k * SECONDS_PER_DAY) = w) [0..<3]))"
      and t: "sum_list (map snd (dd_get [] d' (Aircraft e)))
          = sum_list (map snd (dd_get [] [] (Aircraft e))) + int 3"
    have s: "sum_list (map snd (dd_get [] d' ''N1'')) = 3"
      using t by (simp add: sel dd_get_def)
    have "dd_get 0 (dd_get [] d' ''N1'') ''Friday''
        = dd_get 0 (dd_get [] [] ''N1'') ''Friday''
          + int (length (filter (\<lambda>k. day_name (36000 + int k * SECONDS_PER_DAY) = ''Friday'') [0..<3]))"
      using c [rule_format, of "''Friday''"] by (simp only: sel)
    then have f: "dd_get 0 (dd_get [] d' ''N1'') ''Friday'' = 1"
      unfolding three_days_from_thursday by (simp add: dd_get_def)
    have ex: "\<exists>d'. usage_by_weekday [e] = Inr d'
            \<and> sum_list (map snd (dd_get [] d' ''N1'')) = 3
            \<and> dd_get 0 (dd_get [] d' ''N1'') ''Friday'' = 1"
      using r s f by (intro exI [of _ d']) simp
    show ?thesis
      using h1 h2 h3 h4 ex unfolding e_def sel [unfolded e_def]
      by (intro conjI) simp_all
  qed
qed

text \<open>
  An event from 10:00 to 11:00 on Thursday 1970-01-01 is shorter than a day and its
  interval holds no midnight; the code counts it once, on Thursday.
\<close>

theorem usage_by_weekday_sub_day_event_counts:
  "\<not> is_event_maintenance
       \<lparr> Aircraft = ''N1'', Location = ''KAAA'', Start = 36000, End = 39600,
         Type = ''Reservation'', Tach_Total = ''1.0'' \<rparr>
   \<and> (39600 :: int) - 36000 < SECONDS_PER_DAY
   \<and> \<not> (\<exists>t :: int. 36000 \<le> t \<and> t < 39600 \<and> t mod SECONDS_PER_DAY = 0)
   \<and> usage_by_weekday
       [\<lparr> Aircraft = ''N1'', Location = ''KAAA'', Start = 36000, End = 39600,
           Type = ''Reservation'', Tach_Total = ''1.0'' \<rparr>]
     = Inr [(''N1'', [(''Thursday'', 1)])]"
proof (intro conjI)
  show "\<not> is_event_maintenance
       \<lparr> Aircraft = ''N1'', Location = ''KAAA'', Start = 36000, End = 39600,
         Type = ''Reservation'', Tach_Total = ''1.0'' \<rparr>"
    by (simp add: is_event_maintenance_def)
  show "(39600 :: int) - 36000 < SECONDS_PER_DAY"
    by (simp add: SECONDS_PER_DAY_def)
  show "\<not> (\<exists>t :: int. 36000 \<le> t \<and> t < 39600 \<and> t mod SECONDS_PER_DAY = 0)"
  proof
    assume "\<exists>t :: int. 36000 \<le> t \<and> t < 39600 \<and> t mod SECONDS_PER_DAY = 0"
    then show False
    proof (elim exE conjE)
      fix t :: int
      assume t: "36000 \<le> t" "t < 39600" "t mod SECONDS_PER_DAY = 0"
      have "t mod 86400 = t" using t(1,2) by simp
      then show False using t by (simp add: SECONDS_PER_DAY_def)
    qed
  qed
  show "usage_by_weekday
       [\<lparr> Aircraft = ''N1'', Location = ''KAAA'', Start = 36000, End = 39600,
           Type = ''Reservation'', Tach_Total = ''1.0'' \<rparr>]
     = Inr [(''N1'', [(''Thursday'', 1)])]"
    by code_simp
qed

section \<open>Properties of aircraft_available_by_airport_and_weekday\<close>

text \<open>What \<open>record_day\<close> and \<open>fill_gaps\<close> write, and where.\<close>

lemma set_update_subset: "set (AList.update k v al) \<subseteq> insert (k, v) (set al)"
  by (induction al) auto

lemma dd_get_in_set: "dd_get [] d k = [] \<or> (k, dd_get [] d k) \<in> set d"
  by (auto simp: dd_get_def dest: map_of_SomeD split: option.splits)

lemma map_of_dd_get_update:
  "map_of (dd_get [] (AList.update a (AList.update x v (dd_get [] avail a)) avail) b) y
     = (if b = a \<and> y = x then Some v else map_of (dd_get [] avail b) y)"
  by (simp add: dd_get_update update_conv')

lemma record_day_lookup:
  "map_of (dd_get [] (record_day airports x val avail) a) y
     = (if a \<in> set airports \<and> y = x then Some (val a) else map_of (dd_get [] avail a) y)"
  by (induction airports arbitrary: avail) (auto simp: map_of_dd_get_update)

lemma record_day_keys:
  "fst ` set (record_day airports x val avail) = fst ` set avail \<union> set airports"
  by (induction airports arbitrary: avail) (auto simp: dom_update)

lemma dates_below_update:
  assumes "dates_below b avail" "x < b"
  shows "dates_below b (AList.update a (AList.update x v (dd_get [] avail a)) avail)"
proof -
  have old: "\<forall>(d, c) \<in> set (dd_get [] avail a). d < b"
    using dd_get_in_set [of avail a] assms(1) by (auto simp: dates_below_def)
  have new: "\<forall>(d, c) \<in> set (AList.update x v (dd_get [] avail a)). d < b"
    using set_update_subset [of x v "dd_get [] avail a"] old assms(2) by auto
  show ?thesis
    unfolding dates_below_def
  proof (intro ballI)
    fix p assume "p \<in> set (AList.update a (AList.update x v (dd_get [] avail a)) avail)"
    then have "p = (a, AList.update x v (dd_get [] avail a)) \<or> p \<in> set avail"
      using set_update_subset [of a "AList.update x v (dd_get [] avail a)" avail] by auto
    then show "case p of (a, dl) \<Rightarrow> \<forall>(d, c) \<in> set dl. d < b"
      using new assms(1) by (auto simp: dates_below_def)
  qed
qed

lemma dates_below_record_day:
  "dates_below b avail \<Longrightarrow> x < b \<Longrightarrow> dates_below b (record_day airports x val avail)"
  by (induction airports arbitrary: avail) (simp_all add: dates_below_update)

lemma dates_below_mono: "dates_below b avail \<Longrightarrow> b \<le> b' \<Longrightarrow> dates_below b' avail"
  by (fastforce simp: dates_below_def)

lemma fill_gaps_lookup:
  "map_of (dd_get [] (fill_gaps apa airports x start avail) a) y
     = (if a \<in> set airports \<and> x \<le> y \<and> y < start then Some apa
        else map_of (dd_get [] avail a) y)"
proof (induction apa airports x start avail rule: fill_gaps.induct)
  case (1 apa airports x start avail)
  show ?case
  proof (cases "x < start")
    case True
    then show ?thesis
      using 1 by (subst fill_gaps.simps) (auto simp: record_day_lookup)
  next
    case False
    then show ?thesis by (subst fill_gaps.simps) auto
  qed
qed

lemma fill_gaps_keys:
  "fst ` set (fill_gaps apa airports x start avail) \<subseteq> fst ` set avail \<union> set airports"
proof (induction apa airports x start avail rule: fill_gaps.induct)
  case (1 apa airports x start avail)
  show ?case
  proof (cases "x < start")
    case True
    then have "fill_gaps apa airports x start avail
        = fill_gaps apa airports (x + 1) start (record_day airports x (\<lambda>airport. apa) avail)"
      by (subst fill_gaps.simps) simp
    then show ?thesis using 1 [OF True] by (auto simp: record_day_keys)
  next
    case False
    then show ?thesis by (subst fill_gaps.simps) auto
  qed
qed

lemma dates_below_fill_gaps:
  "dates_below start avail \<Longrightarrow> dates_below start (fill_gaps apa airports x start avail)"
proof (induction apa airports x start avail rule: fill_gaps.induct)
  case (1 apa airports x start avail)
  show ?case
  proof (cases "x < start")
    case True
    then have "fill_gaps apa airports x start avail
        = fill_gaps apa airports (x + 1) start (record_day airports x (\<lambda>airport. apa) avail)"
      by (subst fill_gaps.simps) simp
    then show ?thesis using 1 True by (simp add: dates_below_record_day)
  next
    case False
    then show ?thesis using 1 by (subst fill_gaps.simps) auto
  qed
qed


text \<open>The sweep: its cursor, the airports it writes for, and the dates it has written.\<close>

lemma date_of_mono: "a \<le> b \<Longrightarrow> date_of a \<le> date_of b"
  by (simp add: date_of_def SECONDS_PER_DAY_def zdiv_mono1)

lemma change_day_fields:
  "current_date (change_day apa airports s d) = Some d"
  "aircraft_seen (change_day apa airports s d) = []"
  "airport_usage (change_day apa airports s d) = []"
  by (simp_all add: change_day_def)

lemma sweep_step_current:
  "current_date (sweep_step apa airports s e) = Some (date_of (Start e))"
  by (simp add: sweep_step_def Let_def change_day_fields)

lemma sweep_step_avail:
  "available_aircraft_by_airport_and_date (sweep_step apa airports s e)
     = (if Some (date_of (Start e)) \<noteq> current_date s then
          available_aircraft_by_airport_and_date
            (change_day apa airports s (date_of (Start e)))
        else available_aircraft_by_airport_and_date s)"
  by (simp add: sweep_step_def Let_def)

lemma sweep_append:
  "sweep apa airports s (xs @ ys) = sweep apa airports (sweep apa airports s xs) ys"
  by (induction xs arbitrary: s) simp_all

lemma sweep_current_last:
  "es \<noteq> [] \<Longrightarrow>
   current_date (sweep apa airports s es) = Some (date_of (Start (last es)))"
proof (induction es arbitrary: s)
  case Nil
  then show ?case by simp
next
  case (Cons e es)
  then show ?case by (cases "es = []") (simp_all add: sweep_step_current)
qed

lemma change_day_keys:
  "fst ` set (available_aircraft_by_airport_and_date (change_day apa airports s d))
     \<subseteq> fst ` set (available_aircraft_by_airport_and_date s) \<union> set airports"
proof (cases "current_date s")
  case None
  then show ?thesis by (simp add: change_day_def)
next
  case (Some cur)
  let ?r = "record_day airports cur
      (\<lambda>airport. apa - dd_get 0 (airport_usage s) airport)
      (available_aircraft_by_airport_and_date s)"
  have r: "fst ` set ?r = fst ` set (available_aircraft_by_airport_and_date s) \<union> set airports"
    by (rule record_day_keys)
  have f: "fst ` set (fill_gaps apa airports cur d ?r) \<subseteq> fst ` set ?r \<union> set airports"
    by (rule fill_gaps_keys)
  show ?thesis using Some r f by (auto simp: change_day_def Let_def)
qed

lemma sweep_keys:
  "fst ` set (available_aircraft_by_airport_and_date (sweep apa airports s es))
     \<subseteq> fst ` set (available_aircraft_by_airport_and_date s) \<union> set airports"
proof (induction es arbitrary: s)
  case Nil
  then show ?case by simp
next
  case (Cons e es)
  have "fst ` set (available_aircraft_by_airport_and_date (sweep_step apa airports s e))
     \<subseteq> fst ` set (available_aircraft_by_airport_and_date s) \<union> set airports"
    using change_day_keys [of apa airports s "date_of (Start e)"]
    by (auto simp: sweep_step_avail)
  then show ?case using Cons.IH [of "sweep_step apa airports s e"] by (simp del: image_subset_iff) blast
qed

lemma change_day_dates_below:
  assumes "current_date s = None \<longrightarrow> available_aircraft_by_airport_and_date s = []"
    and "\<forall>c. current_date s = Some c \<longrightarrow>
           dates_below c (available_aircraft_by_airport_and_date s) \<and> c < d"
  shows "dates_below d (available_aircraft_by_airport_and_date (change_day apa airports s d))"
proof (cases "current_date s")
  case None
  then show ?thesis using assms(1) by (simp add: change_day_def dates_below_def)
next
  case (Some cur)
  then have b: "dates_below cur (available_aircraft_by_airport_and_date s)" and lt: "cur < d"
    using assms(2) by auto
  have "dates_below d (available_aircraft_by_airport_and_date s)"
    using dates_below_mono [OF b] lt by simp
  then have r: "dates_below d (record_day airports cur
      (\<lambda>airport. apa - dd_get 0 (airport_usage s) airport)
      (available_aircraft_by_airport_and_date s))"
    using lt by (rule dates_below_record_day)
  show ?thesis
    using Some r dates_below_fill_gaps [OF r] by (simp add: change_day_def Let_def)
qed

lemma sweep_step_dates_below:
  assumes "current_date s = None \<longrightarrow> available_aircraft_by_airport_and_date s = []"
    and "\<forall>c. current_date s = Some c \<longrightarrow>
           dates_below c (available_aircraft_by_airport_and_date s) \<and> c \<le> date_of (Start e)"
  shows "dates_below (date_of (Start e))
           (available_aircraft_by_airport_and_date (sweep_step apa airports s e))"
proof (cases "Some (date_of (Start e)) = current_date s")
  case True
  then show ?thesis using assms(2) by (simp add: sweep_step_avail)
next
  case False
  have "\<forall>c. current_date s = Some c \<longrightarrow>
           dates_below c (available_aircraft_by_airport_and_date s) \<and> c < date_of (Start e)"
    using assms(2) False by fastforce
  then show ?thesis
    using False change_day_dates_below [OF assms(1)] by (simp add: sweep_step_avail)
qed

lemma sweep_sorted_dates_below:
  assumes "sorted_wrt (\<lambda>a b. Start a \<le> Start b) es" and "es \<noteq> []"
    and "current_date s = None \<longrightarrow> available_aircraft_by_airport_and_date s = []"
    and "\<forall>c. current_date s = Some c \<longrightarrow>
           dates_below c (available_aircraft_by_airport_and_date s)
           \<and> c \<le> date_of (Start (hd es))"
  shows "dates_below (date_of (Start (last es)))
           (available_aircraft_by_airport_and_date (sweep apa airports s es))"
  using assms
proof (induction es arbitrary: s)
  case Nil
  then show ?case by simp
next
  case (Cons e es)
  let ?s = "sweep_step apa airports s e"
  have b: "dates_below (date_of (Start e)) (available_aircraft_by_airport_and_date ?s)"
    using sweep_step_dates_below [of s e apa airports] Cons.prems(3,4) by simp
  show ?case
  proof (cases "es = []")
    case True
    then show ?thesis using b by simp
  next
    case False
    have srt: "sorted_wrt (\<lambda>a b. Start a \<le> Start b) es" using Cons.prems(1) by simp
    have "hd es \<in> set es" using False by simp
    then have "Start e \<le> Start (hd es)" using Cons.prems(1) by simp
    then have le: "date_of (Start e) \<le> date_of (Start (hd es))" by (rule date_of_mono)
    have c: "current_date ?s = Some (date_of (Start e))" by (rule sweep_step_current)
    have "dates_below (date_of (Start (last es)))
           (available_aircraft_by_airport_and_date (sweep apa airports ?s es))"
      using Cons.IH [OF srt False, of ?s] b le c by simp
    then show ?thesis using False by simp
  qed
qed

lemma sweep_same_day_event:
  assumes "es \<noteq> []" and "date_of (Start e') = date_of (Start (last es))"
  shows "available_aircraft_by_airport_and_date (sweep apa airports s (es @ [e']))
           = available_aircraft_by_airport_and_date (sweep apa airports s es)"
  using assms sweep_current_last [OF assms(1), of apa airports s]
  by (simp add: sweep_append sweep_step_avail)

text \<open>After the sweep: every airport of the table is a key of the lists, and every list a mean is taken of holds a count, so neither the lookup nor the mean can fail.\<close>

lemma ball_update:
  "P (k, v) \<Longrightarrow> \<forall>p \<in> set al. P p \<Longrightarrow> \<forall>p \<in> set (AList.update k v al). P p"
  using set_update_subset [of k v al] by blast

lemma init_availability_lists_keys:
  "fst ` set (init_availability_lists m airports) = fst ` set m \<union> set airports"
  by (induction airports arbitrary: m) (auto simp: dom_update)

lemma init_availability_lists_empty:
  "\<forall>(a, by_weekday) \<in> set m. by_weekday = [] \<Longrightarrow>
   \<forall>(a, by_weekday) \<in> set (init_availability_lists m airports). by_weekday = []"
proof (induction airports arbitrary: m)
  case Nil
  then show ?case by simp
next
  case (Cons airport rest)
  have "\<forall>(a, by_weekday) \<in> set (AList.update airport [] m). by_weekday = []"
    using set_update_subset [of airport "[]" m] Cons.prems by auto
  then show ?case using Cons.IH by simp
qed

lemma append_counts_nonempty:
  "nonempty_lists by_weekday \<Longrightarrow> nonempty_lists (append_counts by_weekday date_list)"
proof (induction date_list arbitrary: by_weekday)
  case Nil
  then show ?case by simp
next
  case (Cons p rest)
  obtain date count where p: "p = (date, count)" by (cases p)
  let ?k = "date_day_name date"
  have "nonempty_lists (AList.update ?k (dd_get [] by_weekday ?k @ [count]) by_weekday)"
    using set_update_subset [of ?k "dd_get [] by_weekday ?k @ [count]" by_weekday] Cons.prems
    by auto
  then show ?case using Cons.IH p by simp
qed

lemma group_by_weekday_ok:
  assumes "fst ` set avail \<subseteq> fst ` set m"
    and "\<forall>(a, by_weekday) \<in> set m. nonempty_lists by_weekday"
  shows "\<exists>m'. group_by_weekday m avail = Inr m'
           \<and> (\<forall>(a, by_weekday) \<in> set m'. nonempty_lists by_weekday)"
  using assms
proof (induction avail arbitrary: m)
  case Nil
  then show ?case by simp
next
  case (Cons p rest)
  obtain airport date_list where p: "p = (airport, date_list)" by (cases p)
  have keys: "fst ` set rest \<subseteq> fst ` set m" using Cons.prems(1) by simp
  show ?case
  proof (cases "date_list = []")
    case True
    then show ?thesis using Cons.IH [OF keys Cons.prems(2)] p by simp
  next
    case False
    have "airport \<in> fst ` set m" using Cons.prems(1) p by simp
    then obtain by_weekday where bw: "map_of m airport = Some by_weekday"
      by (cases "map_of m airport") (auto simp: map_of_eq_None_iff)
    then have "(airport, by_weekday) \<in> set m" by (rule map_of_SomeD)
    then have "nonempty_lists by_weekday" using Cons.prems(2) by auto
    then have ne: "nonempty_lists (append_counts by_weekday date_list)"
      by (rule append_counts_nonempty)
    let ?m = "AList.update airport (append_counts by_weekday date_list) m"
    have k: "fst ` set rest \<subseteq> fst ` set ?m" using keys by (auto simp: dom_update)
    have n: "\<forall>(a, by_weekday) \<in> set ?m. nonempty_lists by_weekday"
      by (rule ball_update) (use ne Cons.prems(2) in simp_all)
    show ?thesis using Cons.IH [OF k n] p False bw by simp
  qed
qed

lemma mean_by_weekday_ok:
  "nonempty_lists date_list \<Longrightarrow> \<exists>r. mean_by_weekday means date_list = Inr r"
proof (induction date_list arbitrary: means)
  case Nil
  then show ?case by simp
next
  case (Cons p rest)
  obtain dow counts where p: "p = (dow, counts)" by (cases p)
  have "counts \<noteq> []" using Cons.prems p by simp
  then show ?case using Cons.IH Cons.prems p by (simp add: mean_def)
qed

lemma mean_available_ok:
  "\<forall>(a, by_weekday) \<in> set m. nonempty_lists by_weekday \<Longrightarrow>
   \<exists>r. mean_available result m = Inr r"
proof (induction m arbitrary: result)
  case Nil
  then show ?case by simp
next
  case (Cons p rest)
  obtain airport date_list where p: "p = (airport, date_list)" by (cases p)
  have "nonempty_lists date_list" using Cons.prems p by simp
  then obtain means where
    "mean_by_weekday (dd_get [] result airport) date_list = Inr means"
    using mean_by_weekday_ok by blast
  then show ?case using Cons.IH Cons.prems p by simp
qed

lemma summarise_ok:
  assumes "fst ` set avail \<subseteq> set airports"
  shows "\<exists>r. summarise airports avail = Inr r"
proof -
  let ?m = "init_availability_lists [] airports"
  have k: "fst ` set avail \<subseteq> fst ` set ?m"
    using assms by (simp add: init_availability_lists_keys)
  have "\<forall>(a, by_weekday) \<in> set ?m. by_weekday = []"
    by (rule init_availability_lists_empty) simp
  then have n: "\<forall>(a, by_weekday) \<in> set ?m. nonempty_lists by_weekday" by auto
  obtain m' where m': "group_by_weekday ?m avail = Inr m'"
    "\<forall>(a, by_weekday) \<in> set m'. nonempty_lists by_weekday"
    using group_by_weekday_ok [OF k n] by blast
  show ?thesis using m' mean_available_ok [OF m'(2)] by (simp add: summarise_def)
qed

lemma sweep_summarise_ok:
  "\<exists>r. summarise airports
          (available_aircraft_by_airport_and_date (sweep apa airports sweep_init es)) = Inr r"
proof -
  have "fst ` set (available_aircraft_by_airport_and_date (sweep apa airports sweep_init es))
      \<subseteq> set airports"
    using sweep_keys [of apa airports sweep_init es] by (simp add: sweep_init_def)
  then show ?thesis by (rule summarise_ok)
qed

text \<open>With an airport in the list, the only error left is the uneven distribution.\<close>

lemma aircraft_available_nonempty_airports:
  assumes "airports \<noteq> []"
  shows "aircraft_available_by_airport_and_weekday event_list aircraft airports
      = (if length airports dvd length aircraft then
           summarise airports
             (available_aircraft_by_airport_and_date
                (sweep (int (length aircraft div length airports)) airports sweep_init
                   event_list))
         else Inl (Exception ''Uneven aircraft distribution!''))"
proof -
  have ne: "length airports \<noteq> 0" using assms by simp
  have m: "int (length aircraft) mod int (length airports)
      = int (length aircraft mod length airports)"
    by (simp add: zmod_int)
  have q: "int (length aircraft) div int (length airports)
      = int (length aircraft div length airports)"
    by (simp add: zdiv_int)
  have d: "length aircraft mod length airports = 0 \<longleftrightarrow> length airports dvd length aircraft"
    by (simp add: dvd_eq_mod_eq_0)
  show ?thesis
    using ne d unfolding aircraft_available_by_airport_and_weekday_def m q
    by (simp add: Let_def)
qed

text \<open>
  C6, as the code has it. With at least one airport, the call fails with the error of an
  uneven distribution exactly when the number of airports does not divide the number of
  aircraft; when it does, the call returns a result, computed with the exact quotient
  as the number of aircraft for each airport. (With no airport the call fails at the
  division itself.)
\<close>

theorem uneven_distribution_iff_not_divisible:
  assumes "airports \<noteq> []"
  shows "(aircraft_available_by_airport_and_weekday event_list aircraft airports
            = Inl (Exception ''Uneven aircraft distribution!'')
          \<longleftrightarrow> \<not> length airports dvd length aircraft)
     \<and> (length airports dvd length aircraft \<longrightarrow>
          aircraft_available_by_airport_and_weekday event_list aircraft airports
            = summarise airports
                (available_aircraft_by_airport_and_date
                   (sweep (int (length aircraft div length airports)) airports sweep_init
                      event_list))
          \<and> (\<exists>r. aircraft_available_by_airport_and_weekday event_list aircraft airports = Inr r)
          \<and> length aircraft div length airports * length airports = length aircraft)"
proof -
  let ?run = "summarise airports
     (available_aircraft_by_airport_and_date
        (sweep (int (length aircraft div length airports)) airports sweep_init event_list))"
  note unfold = aircraft_available_nonempty_airports [OF assms, of event_list aircraft]
  obtain r where r: "?run = Inr r"
    using sweep_summarise_ok [of airports "int (length aircraft div length airports)" event_list] ..
  show ?thesis
  proof (cases "length airports dvd length aircraft")
    case True
    then show ?thesis using unfold r by simp
  next
    case False
    then show ?thesis using unfold by simp
  qed
qed

theorem uneven_distribution_iff_not_divisible_witness:
  "[''KAAA'', ''KBBB'', ''KCCC''] \<noteq> []
   \<and> \<not> length [''KAAA'', ''KBBB'', ''KCCC''] dvd length [''N1'', ''N2'', ''N3'', ''N4'']
   \<and> aircraft_available_by_airport_and_weekday [] [''N1'', ''N2'', ''N3'', ''N4'']
         [''KAAA'', ''KBBB'', ''KCCC'']
       = Inl (Exception ''Uneven aircraft distribution!'')
   \<and> [''KAAA'', ''KBBB''] \<noteq> []
   \<and> length [''KAAA'', ''KBBB''] dvd length [''N1'', ''N2'', ''N3'', ''N4'']
   \<and> aircraft_available_by_airport_and_weekday [] [''N1'', ''N2'', ''N3'', ''N4'']
         [''KAAA'', ''KBBB'']
       = summarise [''KAAA'', ''KBBB'']
           (available_aircraft_by_airport_and_date (sweep 2 [''KAAA'', ''KBBB''] sweep_init []))
   \<and> aircraft_available_by_airport_and_weekday [] [''N1'', ''N2'', ''N3'', ''N4'']
         [''KAAA'', ''KBBB''] = Inr []"
proof -
  define ap3 where "ap3 = [''KAAA'', ''KBBB'', ''KCCC'']"
  define ap2 where "ap2 = [''KAAA'', ''KBBB'']"
  define ac4 where "ac4 = [''N1'', ''N2'', ''N3'', ''N4'']"
  have a: "ap3 \<noteq> []" and b: "ap2 \<noteq> []" by (simp_all add: ap3_def ap2_def)
  have len: "length ap3 = 3" "length ap2 = 2" "length ac4 = 4"
    by (simp_all add: ap3_def ap2_def ac4_def)
  have nd: "\<not> length ap3 dvd length ac4" and d: "length ap2 dvd length ac4"
    unfolding len by simp_all
  have q: "int (length ac4 div length ap2) = 2" unfolding len by simp
  have r: "summarise [''KAAA'', ''KBBB'']
           (available_aircraft_by_airport_and_date (sweep 2 [''KAAA'', ''KBBB''] sweep_init []))
       = Inr []"
    by code_simp
  have t3: "aircraft_available_by_airport_and_weekday [] ac4 ap3
       = Inl (Exception ''Uneven aircraft distribution!'')"
    using uneven_distribution_iff_not_divisible [OF a, of "[]" ac4] nd by simp
  have t2: "aircraft_available_by_airport_and_weekday [] ac4 ap2
       = summarise ap2 (available_aircraft_by_airport_and_date (sweep 2 ap2 sweep_init []))"
    using uneven_distribution_iff_not_divisible [OF b, of "[]" ac4] d unfolding q by simp
  have t2': "aircraft_available_by_airport_and_weekday [] ac4 ap2 = Inr []"
    unfolding t2 using r by (simp only: ap2_def)
  show ?thesis
    using a b nd d t3 t2 t2' unfolding ap3_def ap2_def ac4_def by (intro conjI)
qed

text \<open>
  With no airport, one aircraft is not evenly divisible and yet the error is not the one
  of an uneven distribution; and no aircraft over no airports divides evenly and yet the
  call does not proceed.
\<close>

theorem no_airports_is_not_a_distribution_error:
  "\<not> length ([] :: string list) dvd length [''N1'']
   \<and> aircraft_available_by_airport_and_weekday [] [''N1''] []
       \<noteq> Inl (Exception ''Uneven aircraft distribution!'')
   \<and> aircraft_available_by_airport_and_weekday [] [''N1''] [] = Inl ZeroDivisionError
   \<and> length ([] :: string list) dvd length ([] :: string list)
   \<and> aircraft_available_by_airport_and_weekday [] [] [] = Inl ZeroDivisionError"
  by (simp add: aircraft_available_by_airport_and_weekday_def)

lemma map_of_dates_below:
  assumes "dates_below b avail"
  shows "map_of (dd_get [] avail airport) b = None"
proof (rule ccontr)
  assume "map_of (dd_get [] avail airport) b \<noteq> None"
  then obtain c where c: "map_of (dd_get [] avail airport) b = Some c" by auto
  then have m: "(b, c) \<in> set (dd_get [] avail airport)" by (rule map_of_SomeD)
  then have "dd_get [] avail airport \<noteq> []" by auto
  then have "(airport, dd_get [] avail airport) \<in> set avail"
    using dd_get_in_set [of avail airport] by simp
  then have "b < b" using assms m by (auto simp: dates_below_def)
  then show False by simp
qed

text \<open>
  C3. For a non-empty event list in ascending order of start, every date the sweep has
  recorded for any airport lies before the start date of the last event; no airport has
  an entry at that date. Whatever else starts on that last date changes nothing in the
  result, and the result is computed from the recorded dates alone.
\<close>

theorem last_day_never_finalized:
  assumes "event_list \<noteq> []"
    and "sorted_wrt (\<lambda>a b. Start a \<le> Start b) event_list"
  shows "(\<forall>(airport, date_list) \<in>
             set (available_aircraft_by_airport_and_date
                    (sweep aircraft_per_airport airports sweep_init event_list)).
           \<forall>(d, count) \<in> set date_list. d < date_of (Start (last event_list)))
     \<and> (\<forall>airport.
           map_of (dd_get []
                     (available_aircraft_by_airport_and_date
                        (sweep aircraft_per_airport airports sweep_init event_list)) airport)
             (date_of (Start (last event_list))) = None)
     \<and> (\<forall>e'. date_of (Start e') = date_of (Start (last event_list)) \<longrightarrow>
           aircraft_available_by_airport_and_weekday (event_list @ [e']) aircraft airports
             = aircraft_available_by_airport_and_weekday event_list aircraft airports)
     \<and> (airports \<noteq> [] \<and> length airports dvd length aircraft \<longrightarrow>
           aircraft_available_by_airport_and_weekday event_list aircraft airports
             = summarise airports
                 (available_aircraft_by_airport_and_date
                    (sweep (int (length aircraft div length airports)) airports sweep_init
                       event_list)))"
proof (intro conjI allI impI)
  let ?avail = "available_aircraft_by_airport_and_date
                    (sweep aircraft_per_airport airports sweep_init event_list)"
  have b: "dates_below (date_of (Start (last event_list))) ?avail"
    by (rule sweep_sorted_dates_below [OF assms(2) assms(1)])
      (simp_all add: sweep_init_def)
  show "\<forall>(airport, date_list) \<in> set ?avail.
           \<forall>(d, count) \<in> set date_list. d < date_of (Start (last event_list))"
    using b by (simp add: dates_below_def)
  show "map_of (dd_get [] ?avail airport) (date_of (Start (last event_list))) = None"
    for airport
    using b by (rule map_of_dates_below)
  show "aircraft_available_by_airport_and_weekday (event_list @ [e']) aircraft airports
             = aircraft_available_by_airport_and_weekday event_list aircraft airports"
    if "date_of (Start e') = date_of (Start (last event_list))" for e'
    using sweep_same_day_event [OF assms(1) that]
    by (simp add: aircraft_available_by_airport_and_weekday_def Let_def)
  show "aircraft_available_by_airport_and_weekday event_list aircraft airports
             = summarise airports
                 (available_aircraft_by_airport_and_date
                    (sweep (int (length aircraft div length airports)) airports sweep_init
                       event_list))"
    if "airports \<noteq> [] \<and> length airports dvd length aircraft"
    using that aircraft_available_nonempty_airports [of airports event_list aircraft]
    by simp
qed

lemma two_days_result:
  "aircraft_available_by_airport_and_weekday
        [\<lparr> Aircraft = ''N1'', Location = ''KAAA'', Start = 36000, End = 39600,
            Type = ''Reservation'', Tach_Total = ''1.0'' \<rparr>,
         \<lparr> Aircraft = ''N2'', Location = ''KAAA'', Start = 122400, End = 126000,
            Type = ''Reservation'', Tach_Total = ''1.0'' \<rparr>] [''N1'', ''N2''] [''KAAA'']
   = Inr [(''KAAA'', [(''Thursday'', 1)])]"
  by code_simp

theorem last_day_never_finalized_witness:
  "[\<lparr> Aircraft = ''N1'', Location = ''KAAA'', Start = 36000, End = 39600,
       Type = ''Reservation'', Tach_Total = ''1.0'' \<rparr>,
    \<lparr> Aircraft = ''N2'', Location = ''KAAA'', Start = 122400, End = 126000,
       Type = ''Reservation'', Tach_Total = ''1.0'' \<rparr>] \<noteq> []
   \<and> sorted_wrt (\<lambda>a b. Start a \<le> Start b)
       [\<lparr> Aircraft = ''N1'', Location = ''KAAA'', Start = 36000, End = 39600,
           Type = ''Reservation'', Tach_Total = ''1.0'' \<rparr>,
        \<lparr> Aircraft = ''N2'', Location = ''KAAA'', Start = 122400, End = 126000,
           Type = ''Reservation'', Tach_Total = ''1.0'' \<rparr>]
   \<and> date_of 122400 = 1
   \<and> map_of (dd_get []
         (available_aircraft_by_airport_and_date
            (sweep 2 [''KAAA''] sweep_init
               [\<lparr> Aircraft = ''N1'', Location = ''KAAA'', Start = 36000, End = 39600,
                   Type = ''Reservation'', Tach_Total = ''1.0'' \<rparr>,
                \<lparr> Aircraft = ''N2'', Location = ''KAAA'', Start = 122400, End = 126000,
                   Type = ''Reservation'', Tach_Total = ''1.0'' \<rparr>])) ''KAAA'') 1 = None
   \<and> aircraft_available_by_airport_and_weekday
        [\<lparr> Aircraft = ''N1'', Location = ''KAAA'', Start = 36000, End = 39600,
            Type = ''Reservation'', Tach_Total = ''1.0'' \<rparr>,
         \<lparr> Aircraft = ''N2'', Location = ''KAAA'', Start = 122400, End = 126000,
            Type = ''Reservation'', Tach_Total = ''1.0'' \<rparr>] [''N1'', ''N2''] [''KAAA'']
       = Inr [(''KAAA'', [(''Thursday'', 1)])]"
proof -
  define es where "es =
    [\<lparr> Aircraft = ''N1'', Location = ''KAAA'', Start = 36000, End = 39600,
       Type = ''Reservation'', Tach_Total = ''1.0'' \<rparr>,
    \<lparr> Aircraft = ''N2'', Location = ''KAAA'', Start = 122400, End = 126000,
       Type = ''Reservation'', Tach_Total = ''1.0'' \<rparr>]"
  have h1: "es \<noteq> []" by (simp add: es_def)
  have h2: "sorted_wrt (\<lambda>a b. Start a \<le> Start b) es" by (simp add: es_def)
  have d: "date_of (Start (last es)) = 1" "date_of 122400 = 1"
    by (simp_all add: es_def date_of_def SECONDS_PER_DAY_def)
  note th = last_day_never_finalized [OF h1 h2, of 2 "[''KAAA'']" "[''N1'', ''N2'']"]
  have n: "map_of (dd_get []
         (available_aircraft_by_airport_and_date (sweep 2 [''KAAA''] sweep_init es)) ''KAAA'')
         1 = None"
    using th [THEN conjunct2, THEN conjunct1, rule_format, of "''KAAA''"]
    unfolding d .
  show ?thesis
    using h1 h2 d(2) n two_days_result unfolding es_def by (intro conjI)
qed

text \<open>
  Within a day. \<open>aircraft_seen\<close> is one list for all airports, so an aircraft adds to
  the count of the airport of its first event of the day and to no other: the aircraft
  not seen so far whose first event in \<open>es\<close> is at the airport.
\<close>

lemma first_seen_at_finite: "finite (first_seen_at seen es airport)"
proof -
  have "first_seen_at seen es airport \<subseteq> Aircraft ` set es"
    by (auto simp: find_Some_iff)
  then show ?thesis by (rule finite_subset) simp
qed

lemma first_seen_at_seen:
  "Aircraft e \<in> set seen \<Longrightarrow> first_seen_at seen (e # es) airport = first_seen_at seen es airport"
  by auto

lemma first_seen_at_new:
  assumes "Aircraft e \<notin> set seen"
  shows "first_seen_at seen (e # es) airport
     = (if Location e = airport then
          insert (Aircraft e) (first_seen_at (seen @ [Aircraft e]) es airport)
        else first_seen_at (seen @ [Aircraft e]) es airport)"
  using assms by auto

lemma card_first_seen_at_new:
  assumes "Aircraft e \<notin> set seen"
  shows "int (card (first_seen_at seen (e # es) airport))
     = (if Location e = airport then 1 else 0)
       + int (card (first_seen_at (seen @ [Aircraft e]) es airport))"
proof -
  have n: "Aircraft e \<notin> first_seen_at (seen @ [Aircraft e]) es airport" by simp
  show ?thesis
    unfolding first_seen_at_new [OF assms]
    using card_insert_disjoint [OF first_seen_at_finite n] by simp
qed

lemma sweep_step_within_day:
  assumes "current_date s = Some (date_of (Start e))"
  shows "sweep_step apa airports s e
     = (if Aircraft e \<notin> set (aircraft_seen s) then
          s\<lparr> aircraft_seen := aircraft_seen s @ [Aircraft e],
              airport_usage := counter_incr (Location e) (airport_usage s) \<rparr>
        else s)"
  using assms by (simp add: sweep_step_def)

lemma sweep_within_day:
  assumes "\<forall>e \<in> set es. date_of (Start e) = d" and "current_date s = Some d"
  shows "available_aircraft_by_airport_and_date (sweep apa airports s es)
           = available_aircraft_by_airport_and_date s
     \<and> current_date (sweep apa airports s es) = Some d
     \<and> (\<forall>airport. dd_get 0 (airport_usage (sweep apa airports s es)) airport
           = dd_get 0 (airport_usage s) airport
             + int (card (first_seen_at (aircraft_seen s) es airport)))"
  using assms
proof (induction es arbitrary: s)
  case Nil
  then show ?case by simp
next
  case (Cons e es)
  have cur: "current_date s = Some (date_of (Start e))" using Cons.prems by simp
  have rest: "\<forall>e \<in> set es. date_of (Start e) = d" using Cons.prems(1) by simp
  show ?case
  proof (cases "Aircraft e \<in> set (aircraft_seen s)")
    case True
    then have st: "sweep_step apa airports s e = s"
      using sweep_step_within_day [OF cur] by simp
    show ?thesis
      using Cons.IH [OF rest Cons.prems(2)] st first_seen_at_seen [OF True] by simp
  next
    case False
    let ?s = "s\<lparr> aircraft_seen := aircraft_seen s @ [Aircraft e],
              airport_usage := counter_incr (Location e) (airport_usage s) \<rparr>"
    have st: "sweep_step apa airports s e = ?s"
      using sweep_step_within_day [OF cur] False by simp
    have c: "current_date ?s = Some d" using Cons.prems(2) by simp
    note ih = Cons.IH [OF rest c]
    have u: "dd_get 0 (airport_usage (sweep apa airports ?s es)) airport
           = dd_get 0 (airport_usage s) airport
             + int (card (first_seen_at (aircraft_seen s) (e # es) airport))" for airport
    proof -
      have "dd_get 0 (airport_usage (sweep apa airports ?s es)) airport
           = dd_get 0 (airport_usage ?s) airport
             + int (card (first_seen_at (aircraft_seen ?s) es airport))"
        using ih by simp
      also have "\<dots> = dd_get 0 (airport_usage s) airport
             + ((if Location e = airport then 1 else 0)
                + int (card (first_seen_at (aircraft_seen s @ [Aircraft e]) es airport)))"
        by (simp add: dd_get_counter_incr)
      also have "\<dots> = dd_get 0 (airport_usage s) airport
             + int (card (first_seen_at (aircraft_seen s) (e # es) airport))"
        unfolding card_first_seen_at_new [OF False] by simp
      finally show ?thesis .
    qed
    show ?thesis using ih u st by simp
  qed
qed

lemma sweep_step_new_day:
  "sweep_step apa airports s e
     = sweep_step apa airports
         (if Some (date_of (Start e)) \<noteq> current_date s then
            change_day apa airports s (date_of (Start e))
          else s) e"
  by (simp add: sweep_step_def Let_def change_day_fields)

lemma change_day_lookup_before:
  assumes "\<forall>c. current_date s = Some c \<longrightarrow> d < c"
  shows "map_of (dd_get [] (available_aircraft_by_airport_and_date
                              (change_day apa airports s start)) airport) d
     = map_of (dd_get [] (available_aircraft_by_airport_and_date s) airport) d"
proof (cases "current_date s")
  case None
  then show ?thesis by (simp add: change_day_def)
next
  case (Some cur)
  then have "d < cur" using assms by simp
  then show ?thesis
    using Some by (simp add: change_day_def Let_def fill_gaps_lookup record_day_lookup)
qed

lemma sweep_later_days_keep:
  assumes "\<forall>e \<in> set es. d < date_of (Start e)"
    and "\<forall>c. current_date s = Some c \<longrightarrow> d < c"
  shows "map_of (dd_get [] (available_aircraft_by_airport_and_date
                              (sweep apa airports s es)) airport) d
     = map_of (dd_get [] (available_aircraft_by_airport_and_date s) airport) d"
  using assms
proof (induction es arbitrary: s)
  case Nil
  then show ?case by simp
next
  case (Cons e es)
  let ?s = "sweep_step apa airports s e"
  have rest: "\<forall>e \<in> set es. d < date_of (Start e)" using Cons.prems(1) by simp
  have c: "\<forall>c. current_date ?s = Some c \<longrightarrow> d < c"
    using Cons.prems(1) by (simp add: sweep_step_current)
  have "map_of (dd_get [] (available_aircraft_by_airport_and_date ?s) airport) d
     = map_of (dd_get [] (available_aircraft_by_airport_and_date s) airport) d"
    using change_day_lookup_before [OF Cons.prems(2)] by (simp add: sweep_step_avail)
  then show ?case using Cons.IH [OF rest c] by simp
qed

lemma change_day_next_day:
  assumes "current_date s = Some d" and "airport \<in> set airports"
  shows "map_of (dd_get [] (available_aircraft_by_airport_and_date
                              (change_day apa airports s (d + 1))) airport) d
     = Some (apa - dd_get 0 (airport_usage s) airport)"
  using assms by (simp add: change_day_def Let_def record_day_lookup)

text \<open>
  C1, as the code has it. Within a day an aircraft is counted once, at the airport of
  its first event of that day; its later events of the day, at that airport or another,
  count nowhere. Take the events of a day \<open>d\<close>, met when the cursor stands on another
  date, followed by an event of the next day and then only by events of later days: the
  availability recorded for an airport of the list at \<open>d\<close> is
  \<open>aircraft_per_airport\<close> minus the number of aircraft whose first event of the day
  is at that airport.
\<close>

theorem finalized_day_counts_first_sightings:
  assumes "day_events \<noteq> []"
    and "\<forall>e \<in> set day_events. date_of (Start e) = d"
    and "\<forall>e \<in> set before. date_of (Start e) \<noteq> d"
    and "date_of (Start next_event) = d + 1"
    and "\<forall>e \<in> set after. d < date_of (Start e)"
    and "airport \<in> set airports"
  shows "map_of
           (dd_get []
              (available_aircraft_by_airport_and_date
                 (sweep aircraft_per_airport airports sweep_init
                    (before @ day_events @ next_event # after)))
              airport) d
     = Some (aircraft_per_airport
             - int (card {ac. map_option Location (find (\<lambda>e. Aircraft e = ac) day_events)
                              = Some airport}))"
proof -
  let ?sw = "sweep aircraft_per_airport airports"
  let ?s0 = "?sw sweep_init before"
  obtain e es where de: "day_events = e # es" using assms(1) by (cases day_events) auto
  have de_d: "date_of (Start e) = d" using assms(2) de by simp
  have c0: "current_date ?s0 \<noteq> Some d"
  proof (cases "before = []")
    case True
    then show ?thesis by (simp add: sweep_init_def)
  next
    case False
    then have "last before \<in> set before" by simp
    then have "date_of (Start (last before)) \<noteq> d" using assms(3) by blast
    then show ?thesis using sweep_current_last [OF False, of aircraft_per_airport airports sweep_init]
      by simp
  qed
  let ?s1 = "change_day aircraft_per_airport airports ?s0 d"
  have "sweep_step aircraft_per_airport airports ?s0 e
      = sweep_step aircraft_per_airport airports ?s1 e"
    using sweep_step_new_day [of aircraft_per_airport airports ?s0 e] c0 de_d by auto
  then have day: "?sw ?s0 day_events = ?sw ?s1 day_events" by (simp add: de)
  let ?s2 = "?sw ?s1 day_events"
  have c1: "current_date ?s1 = Some d" by (simp add: change_day_fields)
  note w = sweep_within_day [OF assms(2) c1, of aircraft_per_airport airports]
  have c2: "current_date ?s2 = Some d" using w by simp
  have u2: "dd_get 0 (airport_usage ?s2) airport
      = int (card {ac. map_option Location (find (\<lambda>e. Aircraft e = ac) day_events)
                       = Some airport})"
    using w by (simp add: change_day_fields dd_get_def)
  let ?s3 = "sweep_step aircraft_per_airport airports ?s2 next_event"
  have a3: "available_aircraft_by_airport_and_date ?s3
      = available_aircraft_by_airport_and_date
          (change_day aircraft_per_airport airports ?s2 (d + 1))"
    using c2 assms(4) by (simp add: sweep_step_avail)
  have l3: "map_of (dd_get [] (available_aircraft_by_airport_and_date ?s3) airport) d
      = Some (aircraft_per_airport - dd_get 0 (airport_usage ?s2) airport)"
    unfolding a3 by (rule change_day_next_day [OF c2 assms(6)])
  have c3: "\<forall>c. current_date ?s3 = Some c \<longrightarrow> d < c"
    using assms(4) by (simp add: sweep_step_current)
  have split: "?sw sweep_init (before @ day_events @ next_event # after) = ?sw ?s3 after"
    by (simp add: sweep_append day)
  show ?thesis
    unfolding split sweep_later_days_keep [OF assms(5) c3] l3 u2 ..
qed

lemma first_at_KBBB:
  "{ac. map_option Location
          (find (\<lambda>e. Aircraft e = ac)
             [\<lparr> Aircraft = ''N1'', Location = ''KAAA'', Start = 36000, End = 39600,
                 Type = ''Reservation'', Tach_Total = ''1.0'' \<rparr>,
              \<lparr> Aircraft = ''N1'', Location = ''KBBB'', Start = 43200, End = 46800,
                 Type = ''Reservation'', Tach_Total = ''1.0'' \<rparr>,
              \<lparr> Aircraft = ''N2'', Location = ''KBBB'', Start = 50400, End = 54000,
                 Type = ''Reservation'', Tach_Total = ''1.0'' \<rparr>]) = Some ''KBBB''}
   = {''N2''}"
  by (auto split: if_splits)

theorem finalized_day_counts_first_sightings_witness:
  "[\<lparr> Aircraft = ''N1'', Location = ''KAAA'', Start = 36000, End = 39600,
       Type = ''Reservation'', Tach_Total = ''1.0'' \<rparr>,
    \<lparr> Aircraft = ''N1'', Location = ''KBBB'', Start = 43200, End = 46800,
       Type = ''Reservation'', Tach_Total = ''1.0'' \<rparr>,
    \<lparr> Aircraft = ''N2'', Location = ''KBBB'', Start = 50400, End = 54000,
       Type = ''Reservation'', Tach_Total = ''1.0'' \<rparr>] \<noteq> []
   \<and> date_of 36000 = 0 \<and> date_of 43200 = 0 \<and> date_of 50400 = 0 \<and> date_of 122400 = 0 + 1
   \<and> ''KBBB'' \<in> set [''KAAA'', ''KBBB'']
   \<and> map_of
       (dd_get []
          (available_aircraft_by_airport_and_date
             (sweep 1 [''KAAA'', ''KBBB''] sweep_init
                [\<lparr> Aircraft = ''N1'', Location = ''KAAA'', Start = 36000, End = 39600,
                    Type = ''Reservation'', Tach_Total = ''1.0'' \<rparr>,
                 \<lparr> Aircraft = ''N1'', Location = ''KBBB'', Start = 43200, End = 46800,
                    Type = ''Reservation'', Tach_Total = ''1.0'' \<rparr>,
                 \<lparr> Aircraft = ''N2'', Location = ''KBBB'', Start = 50400, End = 54000,
                    Type = ''Reservation'', Tach_Total = ''1.0'' \<rparr>,
                 \<lparr> Aircraft = ''N2'', Location = ''KAAA'', Start = 122400, End = 126000,
                    Type = ''Reservation'', Tach_Total = ''1.0'' \<rparr>]))
          ''KBBB'') 0
     = Some 0"
proof -
  define day where "day =
   [\<lparr> Aircraft = ''N1'', Location = ''KAAA'', Start = 36000, End = 39600,
       Type = ''Reservation'', Tach_Total = ''1.0'' \<rparr>,
    \<lparr> Aircraft = ''N1'', Location = ''KBBB'', Start = 43200, End = 46800,
       Type = ''Reservation'', Tach_Total = ''1.0'' \<rparr>,
    \<lparr> Aircraft = ''N2'', Location = ''KBBB'', Start = 50400, End = 54000,
       Type = ''Reservation'', Tach_Total = ''1.0'' \<rparr>]"
  define nxt where "nxt =
    \<lparr> Aircraft = ''N2'', Location = ''KAAA'', Start = 122400, End = 126000,
       Type = ''Reservation'', Tach_Total = ''1.0'' \<rparr>"
  have dates: "date_of 36000 = 0" "date_of 43200 = 0" "date_of 50400 = 0"
      "date_of 122400 = 0 + 1"
    by (simp_all add: date_of_def SECONDS_PER_DAY_def)
  have h1: "day \<noteq> []" by (simp add: day_def)
  have h2: "\<forall>e \<in> set day. date_of (Start e) = 0" by (simp add: day_def dates)
  have h3: "\<forall>e \<in> set ([] :: event list). date_of (Start e) \<noteq> 0" by simp
  have h4: "date_of (Start nxt) = 0 + 1" by (simp add: nxt_def dates)
  have h5: "\<forall>e \<in> set ([] :: event list). 0 < date_of (Start e)" by simp
  have h6: "''KBBB'' \<in> set [''KAAA'', ''KBBB'']" by simp
  have c: "card {ac. map_option Location (find (\<lambda>e. Aircraft e = ac) day) = Some ''KBBB''} = 1"
    unfolding day_def first_at_KBBB by simp
  have "map_of
       (dd_get []
          (available_aircraft_by_airport_and_date
             (sweep 1 [''KAAA'', ''KBBB''] sweep_init ([] @ day @ nxt # [])))
          ''KBBB'') 0
     = Some 0"
    using finalized_day_counts_first_sightings [OF h1 h2 h3 h4 h5 h6, of 1]
    unfolding c by simp
  then show ?thesis
    using h1 dates h6 unfolding day_def nxt_def by simp
qed

text \<open>
  The same aircraft at KAAA and then at KBBB on 1970-01-01, with one aircraft for each
  airport: one aircraft was seen at KBBB that day, and the availability recorded for
  KBBB is still 1.
\<close>

theorem second_airport_of_the_day_not_counted:
  "map_of
     (dd_get []
        (available_aircraft_by_airport_and_date
           (sweep 1 [''KAAA'', ''KBBB''] sweep_init
              [\<lparr> Aircraft = ''N1'', Location = ''KAAA'', Start = 36000, End = 39600,
                  Type = ''Reservation'', Tach_Total = ''1.0'' \<rparr>,
               \<lparr> Aircraft = ''N1'', Location = ''KBBB'', Start = 43200, End = 46800,
                  Type = ''Reservation'', Tach_Total = ''1.0'' \<rparr>,
               \<lparr> Aircraft = ''N2'', Location = ''KAAA'', Start = 122400, End = 126000,
                  Type = ''Reservation'', Tach_Total = ''1.0'' \<rparr>]))
        ''KBBB'') 0
   = Some 1
   \<and> 1 - int (length (remdups (map Aircraft (filter (\<lambda>e. Location e = ''KBBB'')
         [\<lparr> Aircraft = ''N1'', Location = ''KAAA'', Start = 36000, End = 39600,
             Type = ''Reservation'', Tach_Total = ''1.0'' \<rparr>,
          \<lparr> Aircraft = ''N1'', Location = ''KBBB'', Start = 43200, End = 46800,
             Type = ''Reservation'', Tach_Total = ''1.0'' \<rparr>])))) = 0
   \<and> date_of 36000 = 0 \<and> date_of 43200 = 0 \<and> date_of 122400 = 1
   \<and> aircraft_available_by_airport_and_weekday
        [\<lparr> Aircraft = ''N1'', Location = ''KAAA'', Start = 36000, End = 39600,
            Type = ''Reservation'', Tach_Total = ''1.0'' \<rparr>,
         \<lparr> Aircraft = ''N1'', Location = ''KBBB'', Start = 43200, End = 46800,
            Type = ''Reservation'', Tach_Total = ''1.0'' \<rparr>,
         \<lparr> Aircraft = ''N2'', Location = ''KAAA'', Start = 122400, End = 126000,
            Type = ''Reservation'', Tach_Total = ''1.0'' \<rparr>]
        [''N1'', ''N2''] [''KAAA'', ''KBBB'']
      = Inr [(''KAAA'', [(''Thursday'', 0)]), (''KBBB'', [(''Thursday'', 1)])]"
  by (intro conjI; code_simp)

text \<open>When the next event starts more than a day after the cursor, the gap loop starts
  at the cursor and writes the full number over what was just recorded there.\<close>

lemma change_day_overwrites_current:
  assumes "current_date s = Some cur" and "start - cur > 1" and "airport \<in> set airports"
  shows "map_of (dd_get [] (available_aircraft_by_airport_and_date
                              (change_day apa airports s start)) airport) cur
     = Some apa"
  using assms by (simp add: change_day_def Let_def fill_gaps_lookup)

text \<open>
  C2. The code overwrites the finalized day when it fills a gap: the loop under
  \<^verbatim>\<open># Initialize any gaps\<close> starts at \<^verbatim>\<open>x = current_date\<close>, the day recorded two
  lines before, and not at the day after it. With one aircraft and one airport, an event
  on 1970-01-01 and the next on 1970-01-04: the day is first recorded with 1 - 1 = 0
  available, and after the sweep it stands at 1, as do the two skipped days.
\<close>

theorem gap_filling_overwrites_finalized_day:
  "record_day [''KAAA''] 0 (\<lambda>airport. 1 - dd_get 0 [(''KAAA'', 1)] airport) []
     = [(''KAAA'', [(0, 0)])]
   \<and> available_aircraft_by_airport_and_date
       (sweep 1 [''KAAA''] sweep_init
          [\<lparr> Aircraft = ''N1'', Location = ''KAAA'', Start = 36000, End = 39600,
              Type = ''Reservation'', Tach_Total = ''1.0'' \<rparr>])
     = []
   \<and> airport_usage
       (sweep 1 [''KAAA''] sweep_init
          [\<lparr> Aircraft = ''N1'', Location = ''KAAA'', Start = 36000, End = 39600,
              Type = ''Reservation'', Tach_Total = ''1.0'' \<rparr>])
     = [(''KAAA'', 1)]
   \<and> available_aircraft_by_airport_and_date
       (sweep 1 [''KAAA''] sweep_init
          [\<lparr> Aircraft = ''N1'', Location = ''KAAA'', Start = 36000, End = 39600,
              Type = ''Reservation'', Tach_Total = ''1.0'' \<rparr>,
           \<lparr> Aircraft = ''N1'', Location = ''KAAA'', Start = 295200, End = 298800,
              Type = ''Reservation'', Tach_Total = ''1.0'' \<rparr>])
     = [(''KAAA'', [(0, 1), (1, 1), (2, 1)])]
   \<and> date_of 36000 = 0 \<and> date_of 295200 = 3
   \<and> aircraft_available_by_airport_and_weekday
        [\<lparr> Aircraft = ''N1'', Location = ''KAAA'', Start = 36000, End = 39600,
            Type = ''Reservation'', Tach_Total = ''1.0'' \<rparr>,
         \<lparr> Aircraft = ''N1'', Location = ''KAAA'', Start = 295200, End = 298800,
            Type = ''Reservation'', Tach_Total = ''1.0'' \<rparr>]
        [''N1''] [''KAAA'']
      = Inr [(''KAAA'', [(''Thursday'', 1), (''Friday'', 1), (''Saturday'', 1)])]"
  by (intro conjI; code_simp)

text \<open>
  C10. With no airports the call fails at \<^verbatim>\<open>divmod\<close> with a division by zero,
  whatever the events and the aircraft, and so not with the error of an uneven
  distribution; an empty event list gives empty lists of aircraft and of locations, so
  that is the outcome for it.
\<close>

theorem empty_airports_division_by_zero:
  "aircraft_available_by_airport_and_weekday event_list aircraft [] = Inl ZeroDivisionError
   \<and> gather_aircraft [] = [] \<and> gather_locations [] = []
   \<and> aircraft_available_by_airport_and_weekday [] (gather_aircraft []) (gather_locations [])
       = Inl ZeroDivisionError
   \<and> ZeroDivisionError \<noteq> Exception ''Uneven aircraft distribution!''"
  by (simp add: aircraft_available_by_airport_and_weekday_def gather_aircraft_def
      gather_locations_def)

theorem empty_airports_division_by_zero_witness:
  "aircraft_available_by_airport_and_weekday
     [\<lparr> Aircraft = ''N1'', Location = ''KAAA'', Start = 0, End = 5400,
         Type = ''Reservation'', Tach_Total = ''1.5'' \<rparr>] [''N1''] []
     = Inl ZeroDivisionError
   \<and> aircraft_available_by_airport_and_weekday [] (gather_aircraft []) (gather_locations [])
       = Inl ZeroDivisionError"
  using empty_airports_division_by_zero [of
      "[\<lparr> Aircraft = ''N1'', Location = ''KAAA'', Start = 0, End = 5400,
          Type = ''Reservation'', Tach_Total = ''1.5'' \<rparr>]" "[''N1'']"]
  by (simp add: gather_aircraft_def gather_locations_def)

end
